theory Spec2Isabelle
  imports Main "HOL-Library.Word"
begin

section \<open>XDR on a stdio stream (\<^verbatim>\<open>src/xdr_stdio.c\<close>)\<close>

text \<open>
  The file implements the XDR stream operations on top of a C \<^verbatim>\<open>FILE *\<close>.
  What the functions do depends on three things that the C text leaves to the
  platform: the width of \<^verbatim>\<open>long\<close>, the byte order in which an object is laid
  out in memory, and the behaviour of the stdio calls. All three are written
  out below, so that each source function can be translated line by line.
\<close>

subsection \<open>Bytes, hosts and the memory image of an integer\<close>

type_synonym byte = "8 word"

text \<open>Pointers are addresses; \<^verbatim>\<open>NULL\<close> is address 0.\<close>

type_synonym ptr = nat

definition NULL :: ptr where
  "NULL = 0"

text \<open>
  A host fixes the native byte order and the size of \<^verbatim>\<open>long\<close>: 32 bits
  (ILP32, and LLP64 as on \<^verbatim>\<open>_WIN32\<close>) or 64 bits (LP64).
  \<^verbatim>\<open>u_int\<close>, \<^verbatim>\<open>int32_t\<close> and \<^verbatim>\<open>u_int32_t\<close> are 32 bits wide on all of them.
\<close>

datatype long_size = Long32 | Long64

record host =
  big_endian :: bool
  long_size :: long_size

fun sizeof_long :: "host \<Rightarrow> nat" where
  "sizeof_long h = (case long_size h of Long32 \<Rightarrow> 4 | Long64 \<Rightarrow> 8)"

definition sizeof_int32 :: nat where
  "sizeof_int32 = 4"

text \<open>The \<open>n\<close> low-order bytes of a number, least significant first, and back.\<close>

fun le_bytes :: "nat \<Rightarrow> nat \<Rightarrow> byte list" where
  "le_bytes 0 v = []"
| "le_bytes (Suc n) v = of_nat (v mod 256) # le_bytes n (v div 256)"

fun le_val :: "byte list \<Rightarrow> nat" where
  "le_val [] = 0"
| "le_val (b # bs) = unat b + 256 * le_val bs"

text \<open>
  The memory image of an unsigned \<open>n\<close>-byte object on a host, lowest address
  first, and the value of an object read from such an image.
\<close>

definition obj_bytes :: "host \<Rightarrow> nat \<Rightarrow> nat \<Rightarrow> byte list" where
  "obj_bytes h n v = (if big_endian h then rev (le_bytes n v) else le_bytes n v)"

definition obj_val :: "host \<Rightarrow> byte list \<Rightarrow> nat" where
  "obj_val h bs = le_val (if big_endian h then rev bs else bs)"

text \<open>
  C integer conversions. Converting to an unsigned 32-bit type reduces modulo
  \<open>2 ^ 32\<close>; converting to \<^verbatim>\<open>long\<close> keeps a value that fits and otherwise wraps
  in two's complement (what every supported compiler does).
\<close>

definition to_u32 :: "int \<Rightarrow> nat" where
  "to_u32 x = nat (x mod 2 ^ 32)"

definition long_bits :: "host \<Rightarrow> nat" where
  "long_bits h = 8 * sizeof_long h"

definition LONG_MAX :: "host \<Rightarrow> int" where
  "LONG_MAX h = 2 ^ (long_bits h - 1) - 1"

definition to_long :: "host \<Rightarrow> int \<Rightarrow> int" where
  "to_long h x = (x + 2 ^ (long_bits h - 1)) mod 2 ^ long_bits h - 2 ^ (long_bits h - 1)"

text \<open>A \<^verbatim>\<open>long\<close> object in memory: two's complement, in host byte order.\<close>

definition long_store :: "host \<Rightarrow> int \<Rightarrow> byte list" where
  "long_store h v = obj_bytes h (sizeof_long h) (nat (v mod 2 ^ long_bits h))"

definition long_load :: "host \<Rightarrow> byte list \<Rightarrow> int" where
  "long_load h bs = to_long h (int (obj_val h bs))"

text \<open>
  \<^verbatim>\<open>htonl\<close> and \<^verbatim>\<open>ntohl\<close> (from \<^verbatim>\<open>arpa/inet.h\<close>): the identity on a
  big-endian host, the reversal of the four bytes on a little-endian one.
\<close>

definition bswap32 :: "nat \<Rightarrow> nat" where
  "bswap32 x = le_val (rev (le_bytes 4 x))"

definition htonl :: "host \<Rightarrow> nat \<Rightarrow> nat" where
  "htonl h x = (if big_endian h then x else bswap32 x)"

definition ntohl :: "host \<Rightarrow> nat \<Rightarrow> nat" where
  "ntohl h x = (if big_endian h then x else bswap32 x)"

subsection \<open>The stdio stream\<close>

text \<open>
  A \<^verbatim>\<open>FILE\<close> object. \<open>f_file\<close> is the content of the underlying file.
  \<open>f_pending\<close> is the buffered output that has not been written yet: \<open>None\<close>
  when the stream holds none, \<open>Some d\<close> when it holds some, \<open>d\<close> being the
  content of the file with that output laid over it. \<open>f_pos\<close> is the stream's
  file position. \<open>f_append\<close> tells that the stream was opened for appending, so
  that every write goes to the end of the file. \<open>f_dev_ok\<close> tells whether the
  device accepts what the stream writes to it: a full device, or a file at its
  size limit, does not.
\<close>

record FILE =
  f_open :: bool
  f_readable :: bool
  f_writable :: bool
  f_seekable :: bool
  f_append :: bool
  f_dev_ok :: bool
  f_file :: "byte list"
  f_pending :: "byte list option"
  f_pos :: nat

text \<open>The content as seen through the stream: the file with the buffered output.\<close>

definition f_data :: "FILE \<Rightarrow> byte list" where
  "f_data f = (case f_pending f of None \<Rightarrow> f_file f | Some d \<Rightarrow> d)"

text \<open>
  Writing the buffered output to the file. With nothing buffered there is
  nothing to do; otherwise the device takes the output, or refuses it and the
  output stays in the buffer. The result tells whether nothing is left
  unwritten.
\<close>

definition flush_out :: "FILE \<Rightarrow> bool \<times> FILE" where
  "flush_out f =
     (case f_pending f of
        None \<Rightarrow> (True, f)
      | Some d \<Rightarrow> if f_dev_ok f then (True, f\<lparr>f_file := d, f_pending := None\<rparr>) else (False, f))"

text \<open>
  \<^verbatim>\<open>fread(buf, size, nmemb, f)\<close>: transfers up to \<open>size * nmemb\<close> bytes to the
  front of the caller's object \<open>buf\<close>, advances the position by the number of
  bytes transferred and returns the number of complete items. The result holds
  the item count, the new content of the caller's object and the stream.
  A stream that holds unflushed output writes it to the file before it reads
  (C leaves input directly after output, with no flush or seek between them,
  undefined; this is what the C library does), and reads nothing when the
  device refuses that output.
\<close>

definition fread :: "byte list \<Rightarrow> nat \<Rightarrow> nat \<Rightarrow> FILE \<Rightarrow> nat \<times> byte list \<times> FILE" where
  "fread buf sz nmemb f =
     (if \<not> f_open f \<or> \<not> f_readable f \<or> sz = 0 \<or> nmemb = 0 then (0, buf, f)
      else case flush_out f of
        (flushed, f') \<Rightarrow>
          if \<not> flushed then (0, buf, f')
          else let got = take (sz * nmemb) (drop (f_pos f') (f_data f'))
               in (length got div sz,
                   got @ drop (length got) buf,
                   f'\<lparr>f_pos := f_pos f' + length got\<rparr>))"

text \<open>Writing \<open>bs\<close> at offset \<open>p\<close>; a gap after the old end reads as zero bytes.\<close>

definition overwrite :: "nat \<Rightarrow> byte list \<Rightarrow> byte list \<Rightarrow> byte list" where
  "overwrite p bs d =
     take p (d @ replicate (p - length d) 0) @ bs @ drop (p + length bs) d"

text \<open>
  The offset at which the next write lands: the end of the file for a stream
  opened for appending, the stream position otherwise.
\<close>

definition write_start :: "FILE \<Rightarrow> nat" where
  "write_start f = (if f_append f then length (f_data f) else f_pos f)"

text \<open>
  \<^verbatim>\<open>fwrite(buf, size, nmemb, f)\<close>: hands the first \<open>size * nmemb\<close> bytes of the
  caller's object to the stream, where they stay buffered until a flush.
\<close>

definition fwrite :: "byte list \<Rightarrow> nat \<Rightarrow> nat \<Rightarrow> FILE \<Rightarrow> nat \<times> FILE" where
  "fwrite buf sz nmemb f =
     (if \<not> f_open f \<or> \<not> f_writable f \<or> sz = 0 \<or> nmemb = 0 then (0, f)
      else let bs = take (sz * nmemb) buf
           in (length bs div sz,
               f\<lparr>f_pending := Some (overwrite (write_start f) bs (f_data f)),
                 f_pos := write_start f + length bs\<rparr>))"

text \<open>
  \<^verbatim>\<open>fflush(f)\<close>: writes the buffered output to the file; 0, or \<^verbatim>\<open>EOF\<close> (-1)
  when the stream is closed or the device refuses the output.
\<close>

definition fflush :: "FILE \<Rightarrow> int \<times> FILE" where
  "fflush f =
     (if \<not> f_open f then (- 1, f)
      else case flush_out f of (flushed, f') \<Rightarrow> (if flushed then 0 else - 1, f'))"

text \<open>
  \<^verbatim>\<open>ftell(f)\<close>: the position as a \<^verbatim>\<open>long\<close>, or -1 when the stream cannot
  report one or the offset does not fit in a \<^verbatim>\<open>long\<close>.
\<close>

definition ftell :: "host \<Rightarrow> FILE \<Rightarrow> int" where
  "ftell h f =
     (if f_open f \<and> f_seekable f \<and> int (f_pos f) \<le> LONG_MAX h then int (f_pos f) else - 1)"

text \<open>
  \<^verbatim>\<open>fseek(f, off, whence)\<close> with \<^verbatim>\<open>SEEK_SET\<close> = 0, \<^verbatim>\<open>SEEK_CUR\<close> = 1,
  \<^verbatim>\<open>SEEK_END\<close> = 2: writes the buffered output to the file and moves the
  position; -1 when the stream cannot seek, the target is negative or the
  device refuses the output.
\<close>

definition fseek :: "FILE \<Rightarrow> int \<Rightarrow> int \<Rightarrow> int \<times> FILE" where
  "fseek f off whence =
     (if \<not> f_open f \<or> \<not> f_seekable f \<or> whence < 0 \<or> 2 < whence then (- 1, f)
      else let base = (if whence = 0 then 0
                       else if whence = 1 then int (f_pos f)
                       else int (length (f_data f)))
           in if base + off < 0 then (- 1, f)
              else case flush_out f of
                (flushed, f') \<Rightarrow>
                  if \<not> flushed then (- 1, f')
                  else (0, f'\<lparr>f_pos := nat (base + off)\<rparr>))"

subsection \<open>The stream handle and the operation table\<close>

text \<open>The modes that the source names.\<close>

datatype xdr_op = XDR_ENCODE | XDR_DECODE

text \<open>
  The functions of this backend, as the entries of an operation table. The
  table has eleven entries, in the order of the initialiser of
  \<^verbatim>\<open>xdrstdio_ops\<close>; the last three are named as in the comments of the source,
  the others after the operations.
\<close>

datatype xdr_fn =
    Xdrstdio_getlong | Xdrstdio_putlong | Xdrstdio_getbytes | Xdrstdio_putbytes
  | Xdrstdio_getpos | Xdrstdio_setpos | Xdrstdio_inline | Xdrstdio_destroy
  | Xdrstdio_noop

record xdr_ops =
  x_getlong :: xdr_fn
  x_putlong :: xdr_fn
  x_getbytes :: xdr_fn
  x_putbytes :: xdr_fn
  x_getpostn :: xdr_fn
  x_setpostn :: xdr_fn
  x_inline :: xdr_fn
  x_destroy :: xdr_fn
  x_control :: xdr_fn
  x_getbufs :: xdr_fn
  x_putbufs :: xdr_fn

definition xdrstdio_ops :: xdr_ops where
  "xdrstdio_ops =
     \<lparr>x_getlong = Xdrstdio_getlong,
      x_putlong = Xdrstdio_putlong,
      x_getbytes = Xdrstdio_getbytes,
      x_putbytes = Xdrstdio_putbytes,
      x_getpostn = Xdrstdio_getpos,
      x_setpostn = Xdrstdio_setpos,
      x_inline = Xdrstdio_inline,
      x_destroy = Xdrstdio_destroy,
      x_control = Xdrstdio_noop,
      x_getbufs = Xdrstdio_noop,
      x_putbufs = Xdrstdio_noop\<rparr>"

text \<open>
  The \<^verbatim>\<open>XDR\<close> handle, with the fields that \<^verbatim>\<open>xdrstdio_create\<close> assigns
  (the declaration is in \<^verbatim>\<open>rpc/xdr.h\<close>). \<open>x_ops\<close> points to an operation
  table or is unset; \<open>x_lib\<close> is the two-element array; \<open>x_private\<close> holds the
  \<^verbatim>\<open>FILE *\<close>.
\<close>

record XDR =
  x_op :: xdr_op
  x_ops :: "xdr_ops option"
  x_lib :: "ptr \<times> ptr"
  x_public :: ptr
  x_private :: ptr
  x_handy :: nat
  x_base :: ptr

text \<open>
  The memory the functions work on: the caller's \<^verbatim>\<open>XDR\<close> objects and the
  stdio streams, each by address.
\<close>

record world =
  xdr_at :: "ptr \<Rightarrow> XDR"
  file_at :: "ptr \<Rightarrow> FILE"

text \<open>The stream behind a handle: \<^verbatim>\<open>(FILE *) xdrs->x_private\<close>.\<close>

definition private_file :: "world \<Rightarrow> ptr \<Rightarrow> ptr" where
  "private_file w xdrs = x_private (xdr_at w xdrs)"

definition set_file :: "ptr \<Rightarrow> FILE \<Rightarrow> world \<Rightarrow> world" where
  "set_file fp f w = w\<lparr>file_at := (file_at w)(fp := f)\<rparr>"

subsection \<open>The functions of \<^verbatim>\<open>xdr_stdio.c\<close>\<close>

definition xdrstdio_create :: "ptr \<Rightarrow> ptr \<Rightarrow> xdr_op \<Rightarrow> world \<Rightarrow> world" where
  "xdrstdio_create xdrs file op w =
     w\<lparr>xdr_at := (xdr_at w)(xdrs := (xdr_at w xdrs)
          \<lparr>x_op := op,
           x_ops := Some xdrstdio_ops,
           x_lib := (NULL, NULL),
           x_public := NULL,
           x_private := file,
           x_handy := 0,
           x_base := NULL\<rparr>)\<rparr>"

definition xdrstdio_destroy :: "ptr \<Rightarrow> world \<Rightarrow> world" where
  "xdrstdio_destroy xdrs w =
     (case fflush (file_at w (private_file w xdrs)) of
        (r, f') \<Rightarrow> set_file (private_file w xdrs) f' w)"

text \<open>
  \<open>lp\<close> is the value of the caller's \<^verbatim>\<open>long\<close> object on entry; the second
  component of the result is its value on return.
\<close>

definition xdrstdio_getlong :: "host \<Rightarrow> ptr \<Rightarrow> int \<Rightarrow> world \<Rightarrow> bool \<times> int \<times> world" where
  "xdrstdio_getlong h xdrs lp w =
     (case fread (long_store h lp) sizeof_int32 1 (file_at w (private_file w xdrs)) of
        (n, mem, f') \<Rightarrow>
          if n \<noteq> 1 then (False, long_load h mem, set_file (private_file w xdrs) f' w)
          else (True,
                to_long h (int (ntohl h (to_u32 (long_load h mem)))),
                set_file (private_file w xdrs) f' w))"

definition xdrstdio_putlong :: "host \<Rightarrow> ptr \<Rightarrow> int \<Rightarrow> world \<Rightarrow> bool \<times> world" where
  "xdrstdio_putlong h xdrs lp w =
     (let mycopy = to_long h (int (htonl h (to_u32 lp)))
      in case fwrite (long_store h mycopy) sizeof_int32 1 (file_at w (private_file w xdrs)) of
           (n, f') \<Rightarrow>
             if n \<noteq> 1 then (False, set_file (private_file w xdrs) f' w)
             else (True, set_file (private_file w xdrs) f' w))"

text \<open>
  \<open>addr\<close> is the content of the caller's buffer; \<^verbatim>\<open>fread\<close> is only called
  when \<open>len\<close> is not 0.
\<close>

definition xdrstdio_getbytes :: "ptr \<Rightarrow> byte list \<Rightarrow> nat \<Rightarrow> world \<Rightarrow> bool \<times> byte list \<times> world" where
  "xdrstdio_getbytes xdrs addr len w =
     (if len \<noteq> 0 then
        (case fread addr len 1 (file_at w (private_file w xdrs)) of
           (n, addr', f') \<Rightarrow>
             if n \<noteq> 1 then (False, addr', set_file (private_file w xdrs) f' w)
             else (True, addr', set_file (private_file w xdrs) f' w))
      else (True, addr, w))"

definition xdrstdio_putbytes :: "ptr \<Rightarrow> byte list \<Rightarrow> nat \<Rightarrow> world \<Rightarrow> bool \<times> world" where
  "xdrstdio_putbytes xdrs addr len w =
     (if len \<noteq> 0 then
        (case fwrite addr len 1 (file_at w (private_file w xdrs)) of
           (n, f') \<Rightarrow>
             if n \<noteq> 1 then (False, set_file (private_file w xdrs) f' w)
             else (True, set_file (private_file w xdrs) f' w))
      else (True, w))"

definition xdrstdio_getpos :: "host \<Rightarrow> ptr \<Rightarrow> world \<Rightarrow> nat" where
  "xdrstdio_getpos h xdrs w = to_u32 (ftell h (file_at w (private_file w xdrs)))"

definition xdrstdio_setpos :: "host \<Rightarrow> ptr \<Rightarrow> nat \<Rightarrow> world \<Rightarrow> bool \<times> world" where
  "xdrstdio_setpos h xdrs pos w =
     (case fseek (file_at w (private_file w xdrs)) (to_long h (int pos)) 0 of
        (r, f') \<Rightarrow> (if r < 0 then False else True, set_file (private_file w xdrs) f' w))"

definition xdrstdio_inline :: "ptr \<Rightarrow> nat \<Rightarrow> world \<Rightarrow> ptr \<times> world" where
  "xdrstdio_inline xdrs len w = (NULL, w)"

definition xdrstdio_noop :: bool where
  "xdrstdio_noop = False"

subsection \<open>The wire format, in the words of the specification\<close>

text \<open>
  The specification fixes the wire form of an integer: four bytes, most
  significant first, read as a signed 32-bit number. These definitions follow
  those words, not the code, and are what the code is compared with.
\<close>

definition be_val :: "byte list \<Rightarrow> nat" where
  "be_val bs = le_val (rev bs)"

definition wire_int32 :: "byte list \<Rightarrow> int" where
  "wire_int32 bs = (if be_val bs < 2 ^ 31 then int (be_val bs) else int (be_val bs) - 2 ^ 32)"

definition xdr_int32 :: "int \<Rightarrow> byte list" where
  "xdr_int32 v = rev (le_bytes 4 (to_u32 v))"

subsection \<open>Driving a stream\<close>

text \<open>
  A handle, a stream and a memory to start from. \<open>mk_file\<close> is a stream opened
  for reading and writing on a file with the content \<open>bs\<close>, with nothing
  buffered, on a device that accepts output.
\<close>

definition blank_xdr :: XDR where
  "blank_xdr =
     \<lparr>x_op = XDR_ENCODE, x_ops = None, x_lib = (1, 1), x_public = 1,
      x_private = 1, x_handy = 1, x_base = 1\<rparr>"

definition mk_file :: "bool \<Rightarrow> byte list \<Rightarrow> nat \<Rightarrow> FILE" where
  "mk_file seekable bs p =
     \<lparr>f_open = True, f_readable = True, f_writable = True, f_seekable = seekable,
      f_append = False, f_dev_ok = True, f_file = bs, f_pending = None, f_pos = p\<rparr>"

definition blank_world :: world where
  "blank_world = \<lparr>xdr_at = (\<lambda>a. blank_xdr), file_at = (\<lambda>a. mk_file True [] 0)\<rparr>"

text \<open>
  Encoding one integer into an empty file and decoding it again: the handle
  \<open>xdrs\<close> is created on the stream \<open>fp\<close> for encoding, the value is written,
  the handle is destroyed and created again for decoding, the stream is
  positioned at the start and one integer is read into a \<^verbatim>\<open>long\<close> that held
  \<open>lp\<close>. The result tells whether every call succeeded, and the decoded value.
\<close>

definition put_then_get :: "host \<Rightarrow> ptr \<Rightarrow> ptr \<Rightarrow> int \<Rightarrow> int \<Rightarrow> world \<Rightarrow> bool \<times> int" where
  "put_then_get h xdrs fp v lp w =
     (let w1 = xdrstdio_create xdrs fp XDR_ENCODE (set_file fp (mk_file True [] 0) w);
          (ok1, w2) = xdrstdio_putlong h xdrs v w1;
          w3 = xdrstdio_create xdrs fp XDR_DECODE (xdrstdio_destroy xdrs w2);
          (ok2, w4) = xdrstdio_setpos h xdrs 0 w3;
          (ok3, v', w5) = xdrstdio_getlong h xdrs lp w4
      in (ok1 \<and> ok2 \<and> ok3, v'))"

text \<open>Calls of the reading operations, and a handle driven through a list of them.\<close>

datatype get_call = Get_long int | Get_bytes "byte list" nat | Get_pos

fun get_step :: "host \<Rightarrow> ptr \<Rightarrow> get_call \<Rightarrow> world \<Rightarrow> world" where
  "get_step h xdrs (Get_long lp) w = snd (snd (xdrstdio_getlong h xdrs lp w))"
| "get_step h xdrs (Get_bytes addr len) w = snd (snd (xdrstdio_getbytes xdrs addr len w))"
| "get_step h xdrs Get_pos w = (let p = xdrstdio_getpos h xdrs w in w)"

fun drive_get :: "host \<Rightarrow> ptr \<Rightarrow> get_call list \<Rightarrow> world \<Rightarrow> world" where
  "drive_get h xdrs [] w = w"
| "drive_get h xdrs (c # cs) w = drive_get h xdrs cs (get_step h xdrs c w)"

text \<open>
  Calls of the writing operations. \<open>put_step\<close> runs one; \<open>put_bytes_of\<close> is the
  bytes that the call passes to \<^verbatim>\<open>fwrite\<close>.
\<close>

datatype put_call = Put_long int | Put_bytes "byte list" nat


fun put_bytes_of :: "host \<Rightarrow> put_call \<Rightarrow> byte list" where
  "put_bytes_of h (Put_long lp) =
     take sizeof_int32 (long_store h (to_long h (int (htonl h (to_u32 lp)))))"
| "put_bytes_of h (Put_bytes addr len) = take len addr"



section \<open>Properties\<close>

subsection \<open>Bytes and integer conversions\<close>

lemma le_bytes_numeral: "le_bytes (numeral k) v = of_nat (v mod 256) # le_bytes (pred_numeral k) (v div 256)"
  by (simp only: numeral_eq_Suc[of k] le_bytes.simps)

lemma length_le_bytes [simp]: "length (le_bytes n v) = n"
  by (induction n arbitrary: v) simp_all

lemma unat_byte_of_nat: "unat (of_nat (v mod 256) :: byte) = v mod 256"
  by (simp add: unat_of_nat)

lemma le_val_le_bytes: "le_val (le_bytes n v) = v mod 256 ^ n"
proof (induction n arbitrary: v)
  case 0
  show ?case by simp
next
  case (Suc n)
  have "le_val (le_bytes (Suc n) v) = v mod 256 + 256 * (v div 256 mod 256 ^ n)"
    by (simp add: Suc unat_byte_of_nat)
  also have "\<dots> = v mod 256 ^ Suc n"
    by (simp add: mod_mult2_eq)
  finally show ?case .
qed

lemma le_bytes_step: "le_bytes (Suc n) (unat b + 256 * r) = b # le_bytes n r"
proof -
  have "unat b < 256" using unsigned_less [of b, where 'a = nat] by simp
  then show ?thesis by simp
qed

lemma le_bytes_le_val: "le_bytes (length bs) (le_val bs) = bs"
proof (induction bs)
  case Nil
  show ?case by simp
next
  case (Cons b bs)
  have "le_bytes (length (b # bs)) (le_val (b # bs)) = le_bytes (Suc (length bs)) (unat b + 256 * le_val bs)"
    by simp
  also have "\<dots> = b # le_bytes (length bs) (le_val bs)"
    by (rule le_bytes_step)
  finally show ?case by (simp only: Cons.IH)
qed

lemma le_val_less: "le_val bs < 256 ^ length bs"
proof -
  have "le_val bs = le_val (le_bytes (length bs) (le_val bs))"
    by (simp only: le_bytes_le_val)
  also have "\<dots> = le_val bs mod 256 ^ length bs"
    by (rule le_val_le_bytes)
  finally have "le_val bs = le_val bs mod 256 ^ length bs" .
  moreover have "le_val bs mod 256 ^ length bs < 256 ^ length bs" by simp
  ultimately show ?thesis by simp
qed

lemma take_le_bytes: "k \<le> n \<Longrightarrow> take k (le_bytes n v) = le_bytes k v"
proof (induction k arbitrary: n v)
  case 0
  show ?case by simp
next
  case (Suc k)
  then obtain m where n: "n = Suc m" and "k \<le> m" by (cases n) auto
  with Suc.IH [of m "v div 256"] show ?case by simp
qed

lemma le_val_append: "le_val (xs @ ys) = le_val xs + 256 ^ length xs * le_val ys"
  by (induction xs) (simp_all add: algebra_simps)

lemma le_bytes_mod: "le_bytes n (v mod 256 ^ n) = le_bytes n v"
proof -
  have "le_bytes n (v mod 256 ^ n) = le_bytes (length (le_bytes n v)) (le_val (le_bytes n v))"
    by (simp add: le_val_le_bytes)
  then show ?thesis by (simp only: le_bytes_le_val)
qed

lemma le_bytes_small:
  "v < 256 ^ k \<Longrightarrow> le_bytes (k + m) v = le_bytes k v @ replicate m 0"
proof (induction k arbitrary: v)
  case 0
  then have "v = 0" by simp
  then show ?case by (induction m) simp_all
next
  case (Suc k)
  then have "v div 256 < 256 ^ k" by (simp add: less_mult_imp_div_less mult.commute)
  with Suc.IH [of "v div 256"] show ?case by simp
qed

lemma long_bits_cases: "long_bits h = 32 \<or> long_bits h = 64"
  by (cases "long_size h") (simp_all add: long_bits_def)

lemma long_bits_32: "long_size h = Long32 \<Longrightarrow> long_bits h = 32"
  by (simp add: long_bits_def)

lemma long_bits_64: "long_size h = Long64 \<Longrightarrow> long_bits h = 64"
  by (simp add: long_bits_def)

lemma to_long_mod: "to_long h x mod 2 ^ long_bits h = x mod 2 ^ long_bits h"
  by (simp add: to_long_def mod_simps)

lemma long_store_to_long: "long_store h (to_long h x) = long_store h x"
  by (simp add: long_store_def to_long_mod)

lemma mod_mod_32: "x mod 2 ^ long_bits h mod 2 ^ 32 = (x :: int) mod 2 ^ 32"
proof -
  have "(2 :: int) ^ 32 dvd 2 ^ long_bits h"
    using long_bits_cases [of h] by (auto intro: le_imp_power_dvd)
  then show ?thesis by (rule mod_mod_cancel)
qed

lemma to_u32_to_long: "to_u32 (to_long h x) = to_u32 x"
proof -
  have "to_long h x mod 2 ^ 32 = to_long h x mod 2 ^ long_bits h mod 2 ^ 32"
    by (simp only: mod_mod_32)
  also have "\<dots> = x mod 2 ^ 32"
    by (simp only: to_long_mod mod_mod_32)
  finally show ?thesis by (simp add: to_u32_def)
qed

lemma to_u32_int: "to_u32 (int u) = u mod 2 ^ 32"
  by (simp add: to_u32_def nat_mod_distrib)

lemma to_u32_less: "to_u32 x < 2 ^ 32"
  by (simp add: to_u32_def nat_less_iff)

lemma to_long_small_64:
  "long_size h = Long64 \<Longrightarrow> u < 2 ^ 32 \<Longrightarrow> to_long h (int u) = int u"
  by (simp add: to_long_def long_bits_64)

lemma bswap32_less: "bswap32 x < 2 ^ 32"
  using le_val_less [of "rev (le_bytes 4 x)"] by (simp add: bswap32_def)

lemma le_bytes_bswap32: "le_bytes 4 (bswap32 x) = rev (le_bytes 4 x)"
  using le_bytes_le_val [of "rev (le_bytes 4 x)"] by (simp add: bswap32_def)

lemma htonl_less: "x < 2 ^ 32 \<Longrightarrow> htonl h x < 2 ^ 32"
  using bswap32_less [of x] by (simp add: htonl_def)

lemma obj_bytes_htonl:
  "x < 2 ^ 32 \<Longrightarrow> obj_bytes h 4 (htonl h x) = rev (le_bytes 4 x)"
  by (simp add: obj_bytes_def htonl_def le_bytes_bswap32)

subsection \<open>The object that \<^verbatim>\<open>xdrstdio_putlong\<close> passes to \<^verbatim>\<open>fwrite\<close>\<close>

lemma putlong_image_32:
  assumes "long_size h = Long32"
  shows "take 4 (long_store h (to_long h (int (htonl h (to_u32 v))))) = rev (le_bytes 4 (to_u32 v))"
proof -
  let ?u = "htonl h (to_u32 v)"
  have u: "?u < 2 ^ 32" by (rule htonl_less) (rule to_u32_less)
  have "long_store h (to_long h (int ?u)) = long_store h (int ?u)"
    by (rule long_store_to_long)
  also have "\<dots> = obj_bytes h 4 (nat (int ?u mod 2 ^ 32))"
    using assms by (simp add: long_store_def long_bits_32)
  also have "nat (int ?u mod 2 ^ 32) = ?u"
    using u by simp
  also have "obj_bytes h 4 ?u = rev (le_bytes 4 (to_u32 v))"
    by (rule obj_bytes_htonl) (rule to_u32_less)
  finally show ?thesis by simp
qed

lemma putlong_image_le64:
  assumes "long_size h = Long64" and "\<not> big_endian h"
  shows "take 4 (long_store h (to_long h (int (htonl h (to_u32 v))))) = rev (le_bytes 4 (to_u32 v))"
proof -
  let ?u = "htonl h (to_u32 v)"
  have u: "?u < 2 ^ 32" by (rule htonl_less) (rule to_u32_less)
  have "long_store h (to_long h (int ?u)) = long_store h (int ?u)"
    by (rule long_store_to_long)
  also have "\<dots> = obj_bytes h 8 (nat (int ?u mod 2 ^ 64))"
    using assms by (simp add: long_store_def long_bits_64)
  also have "nat (int ?u mod 2 ^ 64) = ?u"
    using u by simp
  also have "obj_bytes h 8 ?u = le_bytes 8 ?u"
    using assms by (simp add: obj_bytes_def)
  finally have "take 4 (long_store h (to_long h (int ?u))) = le_bytes 4 ?u"
    by (simp add: take_le_bytes)
  also have "le_bytes 4 ?u = obj_bytes h 4 ?u"
    using assms by (simp add: obj_bytes_def)
  also have "\<dots> = rev (le_bytes 4 (to_u32 v))"
    by (rule obj_bytes_htonl) (rule to_u32_less)
  finally show ?thesis .
qed

lemma putlong_image_be64:
  assumes "long_size h = Long64" and "big_endian h"
  shows "take 4 (long_store h (to_long h (int (htonl h (to_u32 v))))) = replicate 4 0"
proof -
  let ?u = "to_u32 v"
  have u: "?u < 256 ^ 4" using to_u32_less [of v] by simp
  have h: "htonl h ?u = ?u" using assms by (simp add: htonl_def)
  have "long_store h (to_long h (int ?u)) = long_store h (int ?u)"
    by (rule long_store_to_long)
  also have "\<dots> = obj_bytes h 8 (nat (int ?u mod 2 ^ 64))"
    using assms by (simp add: long_store_def long_bits_64)
  also have "nat (int ?u mod 2 ^ 64) = ?u"
    using u by simp
  also have "obj_bytes h 8 ?u = rev (le_bytes (4 + 4) ?u)"
    using assms by (simp add: obj_bytes_def)
  also have "le_bytes (4 + 4) ?u = le_bytes 4 ?u @ replicate 4 0"
    using u by (rule le_bytes_small)
  finally show ?thesis
    by (simp add: h)
qed

subsection \<open>The value that \<^verbatim>\<open>xdrstdio_getlong\<close> computes from the bytes read\<close>

lemma length_long_store: "length (long_store h x) = sizeof_long h"
  by (simp add: long_store_def obj_bytes_def)

lemma to_u32_long_load: "to_u32 (long_load h mem) = obj_val h mem mod 2 ^ 32"
  by (simp only: long_load_def to_u32_to_long to_u32_int)

lemma be_val_less: "length bs = 4 \<Longrightarrow> be_val bs < 2 ^ 32"
  using le_val_less [of "rev bs"] by (simp add: be_val_def)

lemma bswap32_le_val: "length bs = 4 \<Longrightarrow> bswap32 (le_val bs) = be_val bs"
  using le_bytes_le_val [of bs] by (simp add: bswap32_def be_val_def)

lemma ntohl_obj_val: "length bs = 4 \<Longrightarrow> ntohl h (obj_val h bs) = be_val bs"
  by (simp add: ntohl_def obj_val_def bswap32_le_val be_val_def)

lemma obj_val_less: "length bs = 4 \<Longrightarrow> obj_val h bs < 2 ^ 32"
  using le_val_less [of "rev bs"] le_val_less [of bs] by (simp add: obj_val_def)

lemma getlong_value_32:
  assumes "long_size h = Long32" and "length got = 4"
  shows "ntohl h (to_u32 (long_load h (got @ drop (length got) (long_store h lp)))) = be_val got"
proof -
  have "got @ drop (length got) (long_store h lp) = got"
    using assms by (simp add: length_long_store)
  moreover have "obj_val h got mod 2 ^ 32 = obj_val h got"
    using obj_val_less [OF assms(2), of h] by simp
  ultimately show ?thesis
    using assms by (simp only: to_u32_long_load ntohl_obj_val)
qed

lemma getlong_value_le64:
  assumes "long_size h = Long64" and "\<not> big_endian h" and "length got = 4"
  shows "ntohl h (to_u32 (long_load h (got @ drop (length got) (long_store h lp)))) = be_val got"
proof -
  let ?rest = "drop (length got) (long_store h lp)"
  have "obj_val h (got @ ?rest) = le_val got + 2 ^ 32 * le_val ?rest"
    using assms by (simp add: obj_val_def le_val_append)
  moreover have "le_val got < 2 ^ 32"
    using le_val_less [of got] assms by simp
  ultimately have "obj_val h (got @ ?rest) mod 2 ^ 32 = le_val got"
    by simp
  moreover have "le_val got = obj_val h got"
    using assms by (simp add: obj_val_def)
  ultimately show ?thesis
    using assms by (simp only: to_u32_long_load ntohl_obj_val)
qed

lemma to_long_32_wire:
  assumes "long_size h = Long32" and "length bs = 4"
  shows "to_long h (int (be_val bs)) = wire_int32 bs"
proof (cases "be_val bs < 2 ^ 31")
  case True
  then show ?thesis
    using assms by (simp add: to_long_def long_bits_32 wire_int32_def)
next
  case False
  have "be_val bs < 2 ^ 32" using assms(2) by (rule be_val_less)
  let ?x = "int (be_val bs)"
  have "?x + 2147483648 = ?x - 2147483648 + 4294967296"
    by arith
  then have "(?x + 2147483648) mod 4294967296 = (?x - 2147483648 + 4294967296) mod 4294967296"
    by (rule arg_cong)
  also have "\<dots> = (?x - 2147483648) mod 4294967296"
    by (rule mod_add_self2)
  also have "\<dots> = ?x - 2147483648"
    using False \<open>be_val bs < 2 ^ 32\<close> by (simp add: mod_pos_pos_trivial)
  finally have "(?x + 2147483648) mod 4294967296 = ?x - 2147483648" .
  with False show ?thesis
    using assms by (simp add: to_long_def long_bits_32 wire_int32_def)
qed

lemma to_long_64_wire:
  assumes "long_size h = Long64" and "length bs = 4"
  shows "to_long h (int (be_val bs)) = int (be_val bs)"
  using assms be_val_less [of bs] by (simp add: to_long_small_64)

subsection \<open>Memory lookups\<close>

lemma private_file_create: "private_file (xdrstdio_create xdrs fp op w) xdrs = fp"
  by (simp add: private_file_def xdrstdio_create_def)

lemma file_at_create: "file_at (xdrstdio_create xdrs fp op w) = file_at w"
  by (simp add: xdrstdio_create_def)

lemma file_at_set_file: "file_at (set_file fp f w) fp = f"
  by (simp add: set_file_def)

lemma file_at_set_file_other: "a \<noteq> fp \<Longrightarrow> file_at (set_file fp f w) a = file_at w a"
  by (simp add: set_file_def)

lemma xdr_at_set_file: "xdr_at (set_file fp f w) = xdr_at w"
  by (simp add: set_file_def)

subsection \<open>Flushing\<close>

lemma f_data_update [simp]:
  "f_data (f\<lparr>f_pending := q\<rparr>) = (case q of None \<Rightarrow> f_file f | Some d \<Rightarrow> d)"
  "f_data (f\<lparr>f_pos := p\<rparr>) = f_data f"
  "f_data (f\<lparr>f_append := b\<rparr>) = f_data f"
  "f_data (f\<lparr>f_dev_ok := b\<rparr>) = f_data f"
  by (simp_all add: f_data_def split: option.splits)

lemma f_data_clean: "f_pending f = None \<Longrightarrow> f_data f = f_file f"
  by (simp add: f_data_def)

lemma flush_out_ok: "fst (flush_out f) \<longleftrightarrow> f_dev_ok f \<or> f_pending f = None"
  by (simp add: flush_out_def split: option.splits)

lemma flush_out_clean: "f_pending f = None \<Longrightarrow> flush_out f = (True, f)"
  by (simp add: flush_out_def)

lemma flush_out_sel:
  "f_open (snd (flush_out f)) = f_open f"
  "f_readable (snd (flush_out f)) = f_readable f"
  "f_writable (snd (flush_out f)) = f_writable f"
  "f_seekable (snd (flush_out f)) = f_seekable f"
  "f_append (snd (flush_out f)) = f_append f"
  "f_dev_ok (snd (flush_out f)) = f_dev_ok f"
  "f_data (snd (flush_out f)) = f_data f"
  "f_pos (snd (flush_out f)) = f_pos f"
  "write_start (snd (flush_out f)) = write_start f"
  by (simp_all add: flush_out_def write_start_def f_data_def split: option.splits)


lemma mk_file_sel:
  "f_open (mk_file s bs p)" "f_readable (mk_file s bs p)" "f_writable (mk_file s bs p)"
  "f_seekable (mk_file s bs p) = s" "f_file (mk_file s bs p) = bs" "f_data (mk_file s bs p) = bs"
  "f_pos (mk_file s bs p) = p" "f_append (mk_file s bs p) = False" "f_dev_ok (mk_file s bs p)"
  "write_start (mk_file s bs p) = p" "flush_out (mk_file s bs p) = (True, mk_file s bs p)"
  "f_pending (mk_file s bs p) = None"
  by (simp_all add: mk_file_def write_start_def flush_out_def f_data_def)

subsection \<open>\<^verbatim>\<open>xdrstdio_getlong\<close>\<close>

lemma getlong_short:
  assumes "length (f_data (file_at w (private_file w xdrs))) - f_pos (file_at w (private_file w xdrs)) < 4"
  shows "fst (xdrstdio_getlong h xdrs lp w) = False"
  using assms
  by (simp add: xdrstdio_getlong_def fread_def flush_out_sel sizeof_int32_def Let_def min_def
      split_beta)

lemma getlong_success:
  assumes "fst (xdrstdio_getlong h xdrs lp w)"
  shows "f_open (file_at w (private_file w xdrs)) \<and> f_readable (file_at w (private_file w xdrs)) \<and>
         fst (flush_out (file_at w (private_file w xdrs))) \<and>
         length (take 4 (drop (f_pos (file_at w (private_file w xdrs))) (f_data (file_at w (private_file w xdrs))))) = 4"
proof -
  let ?f = "file_at w (private_file w xdrs)"
  have a: "f_open ?f \<and> f_readable ?f \<and> fst (flush_out ?f)"
    using assms
    by (auto simp: xdrstdio_getlong_def fread_def sizeof_int32_def Let_def split_beta split: if_splits)
  have "\<not> length (f_data ?f) - f_pos ?f < 4"
    using assms getlong_short [of w xdrs h lp] by auto
  with a show ?thesis by simp
qed

lemma getlong_result:
  assumes "f_open f" and "f_readable f" and "fst (flush_out f)"
    and "f = file_at w (private_file w xdrs)"
    and "got = take 4 (drop (f_pos f) (f_data f))"
    and "length got = 4"
  shows "xdrstdio_getlong h xdrs lp w =
           (True,
            to_long h (int (ntohl h (to_u32 (long_load h (got @ drop (length got) (long_store h lp)))))),
            set_file (private_file w xdrs) ((snd (flush_out f))\<lparr>f_pos := f_pos f + 4\<rparr>) w)"
  using assms
  by (simp add: xdrstdio_getlong_def fread_def sizeof_int32_def Let_def split_beta flush_out_sel)

lemma getlong_value:
  assumes "\<not> (big_endian h \<and> long_size h = Long64)"
    and "fst (xdrstdio_getlong h xdrs lp w)"
  shows "fst (snd (xdrstdio_getlong h xdrs lp w)) =
           (case long_size h of
              Long32 \<Rightarrow> wire_int32 (take 4 (drop (f_pos (file_at w (private_file w xdrs))) (f_data (file_at w (private_file w xdrs)))))
            | Long64 \<Rightarrow> int (be_val (take 4 (drop (f_pos (file_at w (private_file w xdrs))) (f_data (file_at w (private_file w xdrs)))))))"
proof -
  let ?f = "file_at w (private_file w xdrs)"
  let ?got = "take 4 (drop (f_pos ?f) (f_data ?f))"
  from getlong_success [OF assms(2)]
  have o: "f_open ?f" and r: "f_readable ?f" and fl: "fst (flush_out ?f)"
    and len: "length ?got = 4" by simp_all
  have res: "fst (snd (xdrstdio_getlong h xdrs lp w)) =
          to_long h (int (ntohl h (to_u32 (long_load h (?got @ drop (length ?got) (long_store h lp))))))"
    by (simp only: getlong_result [OF o r fl refl refl len] fst_conv snd_conv)
  show ?thesis
  proof (cases "long_size h")
    case Long32
    then show ?thesis
      by (simp only: res getlong_value_32 [OF Long32 len] to_long_32_wire [OF Long32 len] long_size.case)
  next
    case Long64
    with assms(1) have le: "\<not> big_endian h" by simp
    show ?thesis
      by (simp only: res getlong_value_le64 [OF Long64 le len] to_long_64_wire [OF Long64 len] Long64 long_size.case)
  qed
qed

lemma getlong_success_iff:
  "fst (xdrstdio_getlong h xdrs lp w) \<longleftrightarrow>
     f_open (file_at w (private_file w xdrs)) \<and> f_readable (file_at w (private_file w xdrs)) \<and>
     fst (flush_out (file_at w (private_file w xdrs))) \<and>
     4 \<le> length (f_data (file_at w (private_file w xdrs))) - f_pos (file_at w (private_file w xdrs))"
proof
  assume "fst (xdrstdio_getlong h xdrs lp w)"
  from getlong_success [OF this] show "f_open (file_at w (private_file w xdrs)) \<and> f_readable (file_at w (private_file w xdrs)) \<and>
     fst (flush_out (file_at w (private_file w xdrs))) \<and>
     4 \<le> length (f_data (file_at w (private_file w xdrs))) - f_pos (file_at w (private_file w xdrs))"
    by (simp add: min_def split: if_splits)
next
  assume a: "f_open (file_at w (private_file w xdrs)) \<and> f_readable (file_at w (private_file w xdrs)) \<and>
     fst (flush_out (file_at w (private_file w xdrs))) \<and>
     4 \<le> length (f_data (file_at w (private_file w xdrs))) - f_pos (file_at w (private_file w xdrs))"
  then have "length (take 4 (drop (f_pos (file_at w (private_file w xdrs))) (f_data (file_at w (private_file w xdrs))))) = 4"
    by simp
  with a show "fst (xdrstdio_getlong h xdrs lp w)"
    by (simp add: getlong_result [OF _ _ _ refl refl])
qed


subsection \<open>Frame properties\<close>

lemma xdr_at_ops:
  "xdr_at (snd (snd (xdrstdio_getlong h xdrs lp w))) = xdr_at w"
  "xdr_at (snd (xdrstdio_putlong h xdrs lp w)) = xdr_at w"
  "xdr_at (snd (snd (xdrstdio_getbytes xdrs addr len w))) = xdr_at w"
  "xdr_at (snd (xdrstdio_putbytes xdrs addr len w)) = xdr_at w"
  "xdr_at (snd (xdrstdio_setpos h xdrs pos w)) = xdr_at w"
  "xdr_at (snd (xdrstdio_inline xdrs len w)) = xdr_at w"
  "xdr_at (xdrstdio_destroy xdrs w) = xdr_at w"
  by (simp_all add: xdrstdio_getlong_def xdrstdio_putlong_def xdrstdio_getbytes_def
      xdrstdio_putbytes_def xdrstdio_setpos_def xdrstdio_inline_def xdrstdio_destroy_def
      xdr_at_set_file Let_def split: prod.splits)

lemma fread_clean:
  assumes "f_pending f = None"
  shows "f_file (snd (snd (fread buf sz nmemb f))) = f_file f \<and>
         f_pending (snd (snd (fread buf sz nmemb f))) = f_pending f"
  using assms by (simp add: fread_def flush_out_clean Let_def)

lemma fread_flushes:
  assumes "f_open f" and "f_readable f" and "sz \<noteq> 0" and "nmemb \<noteq> 0" and "f_dev_ok f"
  shows "f_file (snd (snd (fread buf sz nmemb f))) = f_data f"
  using assms by (simp add: fread_def flush_out_def f_data_def Let_def split: option.splits)

lemma set_file_contents:
  assumes "f_file f' = f_file (file_at w fp)" and "f_pending f' = f_pending (file_at w fp)"
  shows "f_file (file_at (set_file fp f' w) a) = f_file (file_at w a) \<and>
         f_pending (file_at (set_file fp f' w) a) = f_pending (file_at w a)"
  using assms by (simp add: set_file_def)

lemma getlong_world:
  "snd (snd (xdrstdio_getlong h xdrs lp w)) =
     set_file (private_file w xdrs)
       (snd (snd (fread (long_store h lp) sizeof_int32 1 (file_at w (private_file w xdrs))))) w"
  by (simp add: xdrstdio_getlong_def split: prod.splits)

lemma getbytes_world:
  "snd (snd (xdrstdio_getbytes xdrs addr len w)) =
     (if len \<noteq> 0
      then set_file (private_file w xdrs) (snd (snd (fread addr len 1 (file_at w (private_file w xdrs))))) w
      else w)"
  by (simp add: xdrstdio_getbytes_def split: prod.splits)

lemma private_file_get_step: "private_file (get_step h xdrs c w) x = private_file w x"
  by (cases c) (simp_all add: private_file_def xdr_at_ops)

lemma get_step_contents:
  assumes clean: "f_pending (file_at w (private_file w xdrs)) = None"
  shows "f_file (file_at (get_step h xdrs c w) a) = f_file (file_at w a) \<and>
         f_pending (file_at (get_step h xdrs c w) a) = f_pending (file_at w a)"
proof (cases c)
  case (Get_long lp)
  note r = fread_clean [OF clean, of "long_store h lp" sizeof_int32 1]
  show ?thesis
    unfolding Get_long get_step.simps getlong_world
    using r [THEN conjunct1] r [THEN conjunct2] by (rule set_file_contents)
next
  case (Get_bytes addr len)
  show ?thesis
  proof (cases "len = 0")
    case True
    then show ?thesis by (simp add: Get_bytes getbytes_world)
  next
    case False
    note r = fread_clean [OF clean, of addr len 1]
    have "snd (snd (xdrstdio_getbytes xdrs addr len w)) =
            set_file (private_file w xdrs) (snd (snd (fread addr len 1 (file_at w (private_file w xdrs))))) w"
      using False by (simp add: getbytes_world)
    then show ?thesis
      unfolding Get_bytes get_step.simps
      using set_file_contents [OF r [THEN conjunct1] r [THEN conjunct2], of a] by (simp only:)
  qed
next
  case Get_pos
  then show ?thesis by simp
qed

lemma drive_get_contents:
  assumes "f_pending (file_at w (private_file w xdrs)) = None"
  shows "f_file (file_at (drive_get h xdrs cs w) a) = f_file (file_at w a) \<and>
         f_pending (file_at (drive_get h xdrs cs w) a) = f_pending (file_at w a)"
  using assms
proof (induction cs arbitrary: w)
  case Nil
  show ?case by simp
next
  case (Cons c cs)
  let ?w1 = "get_step h xdrs c w"
  note s = get_step_contents [OF Cons.prems, of h c]
  have "f_pending (file_at ?w1 (private_file ?w1 xdrs)) = None"
    by (simp only: private_file_get_step s Cons.prems)
  from Cons.IH [OF this] show ?case
    by (simp only: drive_get.simps s)
qed

lemma create_fields:
  "x_op (xdr_at (xdrstdio_create xdrs file op w) xdrs) = op"
  "x_ops (xdr_at (xdrstdio_create xdrs file op w) xdrs) = Some xdrstdio_ops"
  "x_lib (xdr_at (xdrstdio_create xdrs file op w) xdrs) = (NULL, NULL)"
  "x_public (xdr_at (xdrstdio_create xdrs file op w) xdrs) = NULL"
  "x_private (xdr_at (xdrstdio_create xdrs file op w) xdrs) = file"
  "x_handy (xdr_at (xdrstdio_create xdrs file op w) xdrs) = 0"
  "x_base (xdr_at (xdrstdio_create xdrs file op w) xdrs) = NULL"
  by (simp_all add: xdrstdio_create_def)

subsection \<open>\<^verbatim>\<open>xdrstdio_putlong\<close>\<close>

lemma private_file_xdr_at: "xdr_at w' = xdr_at w \<Longrightarrow> private_file w' xdrs = private_file w xdrs"
  by (simp add: private_file_def)

lemma length_put_long_bytes: "length (put_bytes_of h (Put_long v)) = 4"
  by (cases "long_size h") (simp_all add: sizeof_int32_def length_long_store)

lemma putlong_result:
  assumes "f_open f" and "f_writable f" and "f = file_at w (private_file w xdrs)"
  shows "xdrstdio_putlong h xdrs v w =
           (True, set_file (private_file w xdrs)
                    (f\<lparr>f_pending := Some (overwrite (write_start f) (put_bytes_of h (Put_long v)) (f_data f)),
                       f_pos := write_start f + 4\<rparr>) w)"
proof -
  have "length (take 4 (long_store h (to_long h (int (htonl h (to_u32 v)))))) = 4"
    using length_put_long_bytes [of h v] by (simp add: sizeof_int32_def)
  then show ?thesis
    using assms by (simp add: xdrstdio_putlong_def fwrite_def sizeof_int32_def Let_def)
qed

lemma put_long_bytes:
  "put_bytes_of h (Put_long v) =
     (if big_endian h \<and> long_size h = Long64 then replicate 4 0 else xdr_int32 v)"
proof (cases "long_size h")
  case Long32
  then show ?thesis
    by (simp add: sizeof_int32_def putlong_image_32 xdr_int32_def)
next
  case Long64
  then show ?thesis
    by (cases "big_endian h")
       (simp_all add: sizeof_int32_def putlong_image_le64 putlong_image_be64 xdr_int32_def)
qed

lemma overwrite_empty: "overwrite 0 bs [] = bs"
  by (simp add: overwrite_def)

lemma xdr_int32_1: "xdr_int32 1 = [0, 0, 0, 1]"
  by (simp add: xdr_int32_def to_u32_def le_bytes_numeral)

lemma replicate_4: "replicate 4 x = [x, x, x, x]"
  by (simp add: numeral_Bit0 flip: replicate_add)

subsection \<open>Positioning and flushing\<close>

lemma to_long_id_64: "long_size h = Long64 \<Longrightarrow> p < 2 ^ 32 \<Longrightarrow> to_long h (int p) = int p"
  by (rule to_long_small_64)

lemma to_long_id_32: "long_size h = Long32 \<Longrightarrow> p < 2 ^ 31 \<Longrightarrow> to_long h (int p) = int p"
  by (simp add: to_long_def long_bits_32)

lemma to_long_0: "to_long h 0 = 0"
  using long_bits_cases [of h] by (auto simp: to_long_def)

lemma destroy_world:
  "xdrstdio_destroy xdrs w =
     set_file (private_file w xdrs) (snd (fflush (file_at w (private_file w xdrs)))) w"
  by (simp add: xdrstdio_destroy_def split: prod.splits)

lemma setpos_result:
  assumes "f_open f" and "f_seekable f" and "fst (flush_out f)"
    and "f = file_at w (private_file w xdrs)"
    and "to_long h (int pos) = int p"
  shows "xdrstdio_setpos h xdrs pos w =
           (True, set_file (private_file w xdrs) ((snd (flush_out f))\<lparr>f_pos := p\<rparr>) w)"
  using assms by (simp add: xdrstdio_setpos_def fseek_def Let_def split_beta)

lemma private_file_set_file: "private_file (set_file fp f w) xdrs = private_file w xdrs"
  by (simp add: private_file_def set_file_def)

lemma private_file_destroy: "private_file (xdrstdio_destroy xdrs' w) xdrs = private_file w xdrs"
  by (simp add: destroy_world private_file_set_file)

lemma be_val_xdr_int32: "be_val (xdr_int32 v) = to_u32 v"
  using to_u32_less [of v] by (simp add: be_val_def xdr_int32_def le_val_le_bytes)

lemma length_xdr_int32: "length (xdr_int32 v) = 4"
  by (simp add: xdr_int32_def)

lemma wire_int32_xdr_int32:
  assumes "- (2 ^ 31) \<le> v" and "v < 2 ^ 31"
  shows "wire_int32 (xdr_int32 v) = v"
proof (cases "0 \<le> v")
  case True
  with assms have "v mod 4294967296 = v" by (simp add: mod_pos_pos_trivial)
  with True assms show ?thesis
    by (simp add: wire_int32_def be_val_xdr_int32 to_u32_def)
next
  case False
  have "v mod 4294967296 = (v + 4294967296) mod 4294967296" by simp
  also have "\<dots> = v + 4294967296"
  proof (rule mod_pos_pos_trivial)
    show "0 \<le> v + 4294967296" using assms by simp
    show "v + 4294967296 < 4294967296" using False by simp
  qed
  finally have m: "v mod 4294967296 = v + 4294967296" .
  from False assms show ?thesis
    by (simp add: wire_int32_def be_val_xdr_int32 to_u32_def m)
qed

lemma putlong_file:
  assumes "private_file w xdrs = fp" and "f_open (file_at w fp)" and "f_writable (file_at w fp)"
  shows "fst (xdrstdio_putlong h xdrs v w)"
    and "file_at (snd (xdrstdio_putlong h xdrs v w)) fp =
           (file_at w fp)\<lparr>f_pending := Some (overwrite (write_start (file_at w fp)) (put_bytes_of h (Put_long v)) (f_data (file_at w fp))),
                           f_pos := write_start (file_at w fp) + 4\<rparr>"
proof -
  have "xdrstdio_putlong h xdrs v w =
          (True, set_file (private_file w xdrs)
                    ((file_at w fp)\<lparr>f_pending := Some (overwrite (write_start (file_at w fp)) (put_bytes_of h (Put_long v)) (f_data (file_at w fp))),
                       f_pos := write_start (file_at w fp) + 4\<rparr>) w)"
    by (rule putlong_result) (simp_all only: assms)
  then show "fst (xdrstdio_putlong h xdrs v w)"
    and "file_at (snd (xdrstdio_putlong h xdrs v w)) fp =
           (file_at w fp)\<lparr>f_pending := Some (overwrite (write_start (file_at w fp)) (put_bytes_of h (Put_long v)) (f_data (file_at w fp))),
                           f_pos := write_start (file_at w fp) + 4\<rparr>"
    by (simp_all only: assms fst_conv snd_conv file_at_set_file)
qed

lemma destroy_file:
  assumes "private_file w xdrs = fp" and "f_open (file_at w fp)"
  shows "file_at (xdrstdio_destroy xdrs w) fp = snd (flush_out (file_at w fp))"
  using assms by (simp add: destroy_world file_at_set_file fflush_def split_beta)

lemma setpos_file:
  assumes "private_file w xdrs = fp" and "f_open (file_at w fp)" and "f_seekable (file_at w fp)"
    and "fst (flush_out (file_at w fp))"
    and "to_long h (int pos) = int p"
  shows "fst (xdrstdio_setpos h xdrs pos w)"
    and "file_at (snd (xdrstdio_setpos h xdrs pos w)) fp = (snd (flush_out (file_at w fp)))\<lparr>f_pos := p\<rparr>"
proof -
  have "xdrstdio_setpos h xdrs pos w =
          (True, set_file (private_file w xdrs) ((snd (flush_out (file_at w fp)))\<lparr>f_pos := p\<rparr>) w)"
    by (rule setpos_result) (simp_all only: assms)
  then show "fst (xdrstdio_setpos h xdrs pos w)"
    and "file_at (snd (xdrstdio_setpos h xdrs pos w)) fp = (snd (flush_out (file_at w fp)))\<lparr>f_pos := p\<rparr>"
    by (simp_all only: assms fst_conv snd_conv file_at_set_file)
qed

lemma private_file_ops:
  "private_file (snd (snd (xdrstdio_getlong h xdrs lp w))) x = private_file w x"
  "private_file (snd (xdrstdio_putlong h xdrs lp w)) x = private_file w x"
  "private_file (snd (snd (xdrstdio_getbytes xdrs addr len w))) x = private_file w x"
  "private_file (snd (xdrstdio_putbytes xdrs addr len w)) x = private_file w x"
  "private_file (snd (xdrstdio_setpos h xdrs pos w)) x = private_file w x"
  "private_file (xdrstdio_destroy xdrs w) x = private_file w x"
  by (simp_all only: private_file_def xdr_at_ops)

lemma put_then_get_alt:
  "put_then_get h xdrs fp v lp w =
     (let w1 = xdrstdio_create xdrs fp XDR_ENCODE (set_file fp (mk_file True [] 0) w);
          r1 = xdrstdio_putlong h xdrs v w1;
          w3 = xdrstdio_create xdrs fp XDR_DECODE (xdrstdio_destroy xdrs (snd r1));
          r2 = xdrstdio_setpos h xdrs 0 w3;
          r3 = xdrstdio_getlong h xdrs lp (snd r2)
      in (fst r1 \<and> fst r2 \<and> fst r3, fst (snd r3)))"
  by (simp add: put_then_get_def Let_def split_beta)

lemma put_then_get_value:
  assumes good: "\<not> (big_endian h \<and> long_size h = Long64)"
  shows "put_then_get h xdrs fp v lp w =
           (True, case long_size h of
                    Long32 \<Rightarrow> wire_int32 (xdr_int32 v)
                  | Long64 \<Rightarrow> int (be_val (xdr_int32 v)))"
proof -
  define w1 where "w1 = xdrstdio_create xdrs fp XDR_ENCODE (set_file fp (mk_file True [] 0) w)"
  define r1 where "r1 = xdrstdio_putlong h xdrs v w1"
  define w3 where "w3 = xdrstdio_create xdrs fp XDR_DECODE (xdrstdio_destroy xdrs (snd r1))"
  define r2 where "r2 = xdrstdio_setpos h xdrs 0 w3"
  define r3 where "r3 = xdrstdio_getlong h xdrs lp (snd r2)"
  have bs: "put_bytes_of h (Put_long v) = xdr_int32 v"
    using good by (simp only: put_long_bytes if_False)
  have p1: "private_file w1 xdrs = fp"
    unfolding w1_def by (rule private_file_create)
  have f1: "file_at w1 fp = mk_file True [] 0"
    unfolding w1_def by (simp only: file_at_create file_at_set_file)
  have ok1: "fst r1"
    unfolding r1_def by (rule putlong_file(1) [OF p1]) (simp_all only: f1 mk_file_sel)
  have "file_at (snd r1) fp =
          (file_at w1 fp)\<lparr>f_pending := Some (overwrite (write_start (file_at w1 fp)) (put_bytes_of h (Put_long v)) (f_data (file_at w1 fp))),
                           f_pos := write_start (file_at w1 fp) + 4\<rparr>"
    unfolding r1_def by (rule putlong_file(2) [OF p1]) (simp_all only: f1 mk_file_sel)
  then have f2: "file_at (snd r1) fp =
          \<lparr>f_open = True, f_readable = True, f_writable = True, f_seekable = True,
           f_append = False, f_dev_ok = True, f_file = [], f_pending = Some (xdr_int32 v), f_pos = 4\<rparr>"
    by (simp add: f1 bs mk_file_def write_start_def f_data_def overwrite_empty del: put_bytes_of.simps)
  have p2: "private_file (snd r1) xdrs = fp"
    unfolding r1_def by (simp only: private_file_ops p1)
  have p3: "private_file w3 xdrs = fp"
    unfolding w3_def by (rule private_file_create)
  have "file_at w3 fp = snd (flush_out (file_at (snd r1) fp))"
    unfolding w3_def file_at_create by (rule destroy_file [OF p2]) (simp add: f2)
  then have f3: "file_at w3 fp =
          \<lparr>f_open = True, f_readable = True, f_writable = True, f_seekable = True,
           f_append = False, f_dev_ok = True, f_file = xdr_int32 v, f_pending = None, f_pos = 4\<rparr>"
    by (simp add: f2 flush_out_def)
  have c3: "flush_out (file_at w3 fp) = (True, file_at w3 fp)"
    by (rule flush_out_clean) (simp add: f3)
  have z: "to_long h (int 0) = int 0" by (simp add: to_long_0)
  have ok2: "fst r2"
    unfolding r2_def by (rule setpos_file(1) [OF p3 _ _ _ z]) (simp_all add: c3, simp_all add: f3)
  have "file_at (snd r2) fp = (snd (flush_out (file_at w3 fp)))\<lparr>f_pos := 0\<rparr>"
    unfolding r2_def by (rule setpos_file(2) [OF p3 _ _ _ z]) (simp_all add: c3, simp_all add: f3)
  then have f4: "file_at (snd r2) fp =
          \<lparr>f_open = True, f_readable = True, f_writable = True, f_seekable = True,
           f_append = False, f_dev_ok = True, f_file = xdr_int32 v, f_pending = None, f_pos = 0\<rparr>"
    unfolding c3 by (simp add: f3)
  have p4: "private_file (snd r2) xdrs = fp"
    unfolding r2_def by (simp only: private_file_ops p3)
  have ok3: "fst r3"
    unfolding r3_def by (simp add: getlong_success_iff p4 f4 length_xdr_int32 flush_out_ok f_data_def)
  then have ok3': "fst (xdrstdio_getlong h xdrs lp (snd r2))"
    by (simp only: r3_def)
  have "fst (snd r3) =
          (case long_size h of
             Long32 \<Rightarrow> wire_int32 (take 4 (drop (f_pos (file_at (snd r2) (private_file (snd r2) xdrs))) (f_data (file_at (snd r2) (private_file (snd r2) xdrs)))))
           | Long64 \<Rightarrow> int (be_val (take 4 (drop (f_pos (file_at (snd r2) (private_file (snd r2) xdrs))) (f_data (file_at (snd r2) (private_file (snd r2) xdrs)))))))"
    unfolding r3_def using good ok3' by (rule getlong_value)
  also have "take 4 (drop (f_pos (file_at (snd r2) (private_file (snd r2) xdrs))) (f_data (file_at (snd r2) (private_file (snd r2) xdrs)))) = xdr_int32 v"
    by (simp add: p4 f4 length_xdr_int32 f_data_def)
  finally have val: "fst (snd r3) =
          (case long_size h of Long32 \<Rightarrow> wire_int32 (xdr_int32 v) | Long64 \<Rightarrow> int (be_val (xdr_int32 v)))" .
  have "put_then_get h xdrs fp v lp w = (fst r1 \<and> fst r2 \<and> fst r3, fst (snd r3))"
    by (simp only: put_then_get_alt Let_def w1_def r1_def w3_def r2_def r3_def)
  then show ?thesis
    using ok1 ok2 ok3 by (simp only: val simp_thms)
qed

lemma int_to_u32: "int (to_u32 v) = v mod 2 ^ 32"
  by (simp add: to_u32_def)

lemma put_then_get_good:
  assumes "\<not> (big_endian h \<and> long_size h = Long64)"
    and "- (2 ^ 31) \<le> v" and "v < 2 ^ 31"
  shows "put_then_get h xdrs fp v lp w =
           (True, case long_size h of Long32 \<Rightarrow> v | Long64 \<Rightarrow> v mod 2 ^ 32)"
  by (simp only: put_then_get_value [OF assms(1)] wire_int32_xdr_int32 [OF assms(2,3)]
      be_val_xdr_int32 int_to_u32)

subsection \<open>\<^verbatim>\<open>xdrstdio_getpos\<close> and \<^verbatim>\<open>xdrstdio_setpos\<close>\<close>

lemma getpos_ok:
  assumes "f_open (file_at w (private_file w xdrs))" and "f_seekable (file_at w (private_file w xdrs))"
    and "int (f_pos (file_at w (private_file w xdrs))) \<le> LONG_MAX h"
  shows "xdrstdio_getpos h xdrs w = f_pos (file_at w (private_file w xdrs)) mod 2 ^ 32"
  using assms by (simp add: xdrstdio_getpos_def ftell_def to_u32_int)

lemma LONG_MAX_32: "long_size h = Long32 \<Longrightarrow> LONG_MAX h = 2147483647"
  by (simp add: LONG_MAX_def long_bits_32)

lemma LONG_MAX_64: "long_size h = Long64 \<Longrightarrow> LONG_MAX h = 9223372036854775807"
  by (simp add: LONG_MAX_def long_bits_64)

lemma u32_fits_long:
  assumes "int q \<le> LONG_MAX h"
  shows "to_long h (int (q mod 2 ^ 32)) = int (q mod 2 ^ 32) \<and> int (q mod 2 ^ 32) \<le> LONG_MAX h"
proof (cases "long_size h")
  case Long32
  with assms have "q < 2 ^ 31" by (simp add: LONG_MAX_32)
  then have "q mod 2 ^ 32 = q" by simp
  with Long32 \<open>q < 2 ^ 31\<close> show ?thesis
    by (simp add: to_long_id_32 LONG_MAX_32)
next
  case Long64
  have "q mod 2 ^ 32 < 2 ^ 32" by simp
  with Long64 show ?thesis
    by (simp add: to_long_id_64 LONG_MAX_64)
qed

lemma setpos_fails:
  assumes "to_long h (int pos) < 0"
  shows "fst (xdrstdio_setpos h xdrs pos w) = False"
  using assms by (simp add: xdrstdio_setpos_def fseek_def Let_def)

lemma setpos_refused:
  assumes "\<not> fst (flush_out (file_at w (private_file w xdrs)))"
  shows "fst (xdrstdio_setpos h xdrs pos w) = False"
  using assms by (simp add: xdrstdio_setpos_def fseek_def Let_def split_beta)

lemma setpos_unseekable:
  assumes "\<not> f_seekable (file_at w (private_file w xdrs))"
  shows "fst (xdrstdio_setpos h xdrs pos w) = False"
  using assms by (simp add: xdrstdio_setpos_def fseek_def Let_def split_beta)

lemma getpos_unseekable:
  assumes "\<not> f_seekable (file_at w (private_file w xdrs))"
  shows "xdrstdio_getpos h xdrs w = 4294967295"
  using assms by (simp add: xdrstdio_getpos_def ftell_def to_u32_def)

lemma getpos_sentinel:
  assumes "\<not> int (f_pos (file_at w (private_file w xdrs))) \<le> LONG_MAX h"
  shows "xdrstdio_getpos h xdrs w = 4294967295"
  using assms by (simp add: xdrstdio_getpos_def ftell_def to_u32_def)

subsection \<open>Writing and flushing\<close>

lemma overwrite_split:
  "overwrite p bs d = take p (d @ replicate (p - length d) 0) @ bs @ drop (p + length bs) d \<and>
   length (take p (d @ replicate (p - length d) 0)) = p"
  by (simp add: overwrite_def)
























subsection \<open>Big-endian hosts with a 64-bit \<^verbatim>\<open>long\<close>\<close>

text \<open>
  On such a host \<^verbatim>\<open>fread\<close> fills the high-order half of the caller's
  \<^verbatim>\<open>long\<close>, and the conversion to \<^verbatim>\<open>u_int32_t\<close> then takes the low-order
  half: a successful \<^verbatim>\<open>xdrstdio_getlong\<close> returns the low 32 bits of what the
  \<^verbatim>\<open>long\<close> held before, whatever the bytes read.
\<close>

lemma getlong_value_be64:
  assumes "long_size h = Long64" and "big_endian h" and "length got = 4"
  shows "ntohl h (to_u32 (long_load h (got @ drop (length got) (long_store h lp)))) = to_u32 lp"
proof -
  let ?x = "nat (lp mod 2 ^ 64)"
  have "long_store h lp = rev (le_bytes 8 ?x)"
    using assms by (simp add: long_store_def long_bits_64 obj_bytes_def)
  then have "drop (length got) (long_store h lp) = rev (take 4 (le_bytes 8 ?x))"
    using assms(3) by (simp add: drop_rev)
  also have "take 4 (le_bytes 8 ?x) = le_bytes 4 ?x"
    by (simp add: take_le_bytes)
  finally have "obj_val h (got @ drop (length got) (long_store h lp)) =
      le_val (le_bytes 4 ?x @ rev got)"
    using assms(2) by (simp add: obj_val_def)
  also have "\<dots> = ?x mod 2 ^ 32 + 2 ^ 32 * le_val (rev got)"
    by (simp add: le_val_append le_val_le_bytes)
  finally have "obj_val h (got @ drop (length got) (long_store h lp)) mod 2 ^ 32 = ?x mod 2 ^ 32"
    by simp
  moreover have "?x mod 2 ^ 32 = to_u32 lp"
  proof -
    have "int (?x mod 2 ^ 32) = lp mod 2 ^ 64 mod 2 ^ 32"
      by (simp add: zmod_int)
    also have "\<dots> = lp mod 2 ^ 32"
      by (rule mod_mod_cancel) simp
    finally show ?thesis by (simp add: to_u32_def)
  qed
  ultimately show ?thesis
    using assms(2) by (simp only: to_u32_long_load ntohl_def if_True)
qed

lemma getlong_be64:
  assumes "long_size h = Long64" and "big_endian h"
    and "fst (xdrstdio_getlong h xdrs lp w)"
  shows "fst (snd (xdrstdio_getlong h xdrs lp w)) = lp mod 2 ^ 32"
proof -
  let ?f = "file_at w (private_file w xdrs)"
  let ?got = "take 4 (drop (f_pos ?f) (f_data ?f))"
  from getlong_success [OF assms(3)]
  have o: "f_open ?f" and r: "f_readable ?f" and fl: "fst (flush_out ?f)"
    and len: "length ?got = 4" by simp_all
  have "fst (snd (xdrstdio_getlong h xdrs lp w)) =
          to_long h (int (ntohl h (to_u32 (long_load h (?got @ drop (length ?got) (long_store h lp))))))"
    by (simp only: getlong_result [OF o r fl refl refl len] fst_conv snd_conv)
  also have "\<dots> = to_long h (int (to_u32 lp))"
    by (simp only: getlong_value_be64 [OF assms(1,2) len])
  also have "\<dots> = int (to_u32 lp)"
    using assms(1) to_u32_less [of lp] by (rule to_long_small_64)
  finally show ?thesis by (simp only: int_to_u32)
qed

subsection \<open>Sample values\<close>

lemma be_val_ff: "be_val [255, 255, 255, 255] = 4294967295"
  by (simp add: be_val_def)

lemma wire_int32_ff: "wire_int32 [255, 255, 255, 255] = - 1"
  by (simp add: wire_int32_def be_val_ff)

lemma wire_int32_fe: "wire_int32 [255, 255, 255, 254] = - 2"
  by (simp add: wire_int32_def be_val_def)

section \<open>The claims\<close>

subsection \<open>Round trip of an integer\<close>

text \<open>
  C1, as the code has it. A signed 32-bit value written with
  \<^verbatim>\<open>xdrstdio_putlong\<close> into an empty stream and read back with
  \<^verbatim>\<open>xdrstdio_getlong\<close> comes back unchanged on every host with a 32-bit
  \<^verbatim>\<open>long\<close>; on a little-endian host with a 64-bit \<^verbatim>\<open>long\<close> it comes back
  reduced modulo \<open>2 ^ 32\<close>, that is unchanged when it is not negative and
  increased by \<open>2 ^ 32\<close> when it is. All calls succeed.
\<close>

theorem put_then_get_roundtrip:
  assumes "\<not> (big_endian h \<and> long_size h = Long64)"
    and "- (2 ^ 31) \<le> v" and "v < 2 ^ 31"
  shows "put_then_get h xdrs fp v lp w =
           (True, case long_size h of Long32 \<Rightarrow> v | Long64 \<Rightarrow> v mod 2 ^ 32)"
  using assms by (rule put_then_get_good)

text \<open>
  An instance: the minimum, -2147483648, on a big-endian host with a 32-bit
  \<^verbatim>\<open>long\<close>.
\<close>

theorem put_then_get_roundtrip_witness:
  "\<not> (big_endian \<lparr>big_endian = True, long_size = Long32\<rparr> \<and> long_size \<lparr>big_endian = True, long_size = Long32\<rparr> = Long64)
   \<and> - (2 ^ 31) \<le> (- 2147483648 :: int) \<and> (- 2147483648 :: int) < 2 ^ 31
   \<and> put_then_get \<lparr>big_endian = True, long_size = Long32\<rparr> 3 2 (- 2147483648) 0 blank_world = (True, - 2147483648)"
proof -
  let ?h = "\<lparr>big_endian = True, long_size = Long32\<rparr>"
  have a: "\<not> (big_endian ?h \<and> long_size ?h = Long64)" by simp
  have b: "- (2 ^ 31) \<le> (- 2147483648 :: int)" by simp
  have c: "(- 2147483648 :: int) < 2 ^ 31" by simp
  have "put_then_get ?h 3 2 (- 2147483648) 0 blank_world =
          (True, case long_size ?h of Long32 \<Rightarrow> - 2147483648 | Long64 \<Rightarrow> - 2147483648 mod 2 ^ 32)"
    using a b c by (rule put_then_get_roundtrip)
  also have "\<dots> = (True, - 2147483648)" by simp
  finally show ?thesis using a b c by (simp only: simp_thms)
qed

text \<open>
  The round trip of a negative value on a 64-bit \<^verbatim>\<open>long\<close>: on a little-endian
  host, -1 is written and read back successfully, as 4294967295.
\<close>

theorem put_then_get_negative_counterexample:
  "put_then_get \<lparr>big_endian = False, long_size = Long64\<rparr> 3 2 (- 1) 0 blank_world = (True, 4294967295)
   \<and> snd (put_then_get \<lparr>big_endian = False, long_size = Long64\<rparr> 3 2 (- 1) 0 blank_world) \<noteq> - 1"
proof -
  let ?h = "\<lparr>big_endian = False, long_size = Long64\<rparr>"
  have a: "\<not> (big_endian ?h \<and> long_size ?h = Long64)" by simp
  have b: "- (2 ^ 31) \<le> (- 1 :: int)" by simp
  have c: "(- 1 :: int) < 2 ^ 31" by simp
  have "put_then_get ?h 3 2 (- 1) 0 blank_world =
          (True, case long_size ?h of Long32 \<Rightarrow> - 1 | Long64 \<Rightarrow> - 1 mod 2 ^ 32)"
    using a b c by (rule put_then_get_good)
  also have "\<dots> = (True, 4294967295)" by simp
  finally show ?thesis by simp
qed

subsection \<open>Decoding an integer\<close>

text \<open>
  C2, as the code has it. When \<^verbatim>\<open>xdrstdio_getlong\<close> succeeds on a host where the four
  bytes read land in the low-order half of the \<^verbatim>\<open>long\<close> (a 32-bit \<^verbatim>\<open>long\<close>
  of either byte order, or a little-endian 64-bit \<^verbatim>\<open>long\<close>), the value stored
  is the big-endian reading of the four wire bytes at the stream position,
  converted from \<^verbatim>\<open>u_int32_t\<close> to \<^verbatim>\<open>long\<close>: the signed 32-bit number when
  \<^verbatim>\<open>long\<close> has 32 bits, the unsigned one, never negative, when it has 64.
\<close>

theorem getlong_decodes_wire:
  assumes "\<not> (big_endian h \<and> long_size h = Long64)"
    and "fst (xdrstdio_getlong h xdrs lp w)"
  shows "fst (snd (xdrstdio_getlong h xdrs lp w)) =
           (case long_size h of
              Long32 \<Rightarrow> wire_int32 (take 4 (drop (f_pos (file_at w (private_file w xdrs))) (f_data (file_at w (private_file w xdrs)))))
            | Long64 \<Rightarrow> int (be_val (take 4 (drop (f_pos (file_at w (private_file w xdrs))) (f_data (file_at w (private_file w xdrs)))))))"
  using assms by (rule getlong_value)

text \<open>
  An instance: a big-endian host with a 32-bit \<^verbatim>\<open>long\<close> reads the bytes
  \<open>FF FF FF FE\<close> as -2.
\<close>

theorem getlong_decodes_wire_witness:
  "\<not> (big_endian \<lparr>big_endian = True, long_size = Long32\<rparr> \<and> long_size \<lparr>big_endian = True, long_size = Long32\<rparr> = Long64)
   \<and> fst (xdrstdio_getlong \<lparr>big_endian = True, long_size = Long32\<rparr> 3 0
              (xdrstdio_create 3 2 XDR_DECODE (set_file 2 (mk_file True [255, 255, 255, 254] 0) blank_world)))
   \<and> fst (snd (xdrstdio_getlong \<lparr>big_endian = True, long_size = Long32\<rparr> 3 0
              (xdrstdio_create 3 2 XDR_DECODE (set_file 2 (mk_file True [255, 255, 255, 254] 0) blank_world)))) = - 2"
proof -
  let ?h = "\<lparr>big_endian = True, long_size = Long32\<rparr>"
  let ?w = "xdrstdio_create 3 2 XDR_DECODE (set_file 2 (mk_file True [255, 255, 255, 254] 0) blank_world)"
  have h: "\<not> (big_endian ?h \<and> long_size ?h = Long64)" by simp
  have ok: "fst (xdrstdio_getlong ?h 3 0 ?w)"
    by (simp add: getlong_success_iff private_file_create file_at_create file_at_set_file mk_file_sel)
  have "fst (snd (xdrstdio_getlong ?h 3 0 ?w)) =
          (case long_size ?h of
              Long32 \<Rightarrow> wire_int32 (take 4 (drop (f_pos (file_at ?w (private_file ?w 3))) (f_data (file_at ?w (private_file ?w 3)))))
            | Long64 \<Rightarrow> int (be_val (take 4 (drop (f_pos (file_at ?w (private_file ?w 3))) (f_data (file_at ?w (private_file ?w 3)))))))"
    using h ok by (rule getlong_decodes_wire)
  also have "\<dots> = - 2"
    by (simp add: private_file_create file_at_create file_at_set_file mk_file_sel wire_int32_fe)
  finally show ?thesis using h ok by (simp only: simp_thms)
qed

text \<open>
  No sign extension on a 64-bit \<^verbatim>\<open>long\<close>: a little-endian host with a 64-bit
  \<^verbatim>\<open>long\<close> reads the bytes \<open>FF FF FF FF\<close>, whose signed 32-bit value is -1,
  successfully and stores 4294967295.
\<close>

theorem getlong_zero_extends_counterexample:
  "fst (xdrstdio_getlong \<lparr>big_endian = False, long_size = Long64\<rparr> 3 0
          (xdrstdio_create 3 2 XDR_DECODE (set_file 2 (mk_file True [255, 255, 255, 255] 0) blank_world)))
   \<and> fst (snd (xdrstdio_getlong \<lparr>big_endian = False, long_size = Long64\<rparr> 3 0
          (xdrstdio_create 3 2 XDR_DECODE (set_file 2 (mk_file True [255, 255, 255, 255] 0) blank_world)))) = 4294967295
   \<and> wire_int32 [255, 255, 255, 255] = - 1"
proof -
  let ?h = "\<lparr>big_endian = False, long_size = Long64\<rparr>"
  let ?w = "xdrstdio_create 3 2 XDR_DECODE (set_file 2 (mk_file True [255, 255, 255, 255] 0) blank_world)"
  have ok: "fst (xdrstdio_getlong ?h 3 0 ?w)"
    by (simp add: getlong_success_iff private_file_create file_at_create file_at_set_file mk_file_sel)
  have h: "\<not> (big_endian ?h \<and> long_size ?h = Long64)" by simp
  have "fst (snd (xdrstdio_getlong ?h 3 0 ?w)) =
          (case long_size ?h of
              Long32 \<Rightarrow> wire_int32 (take 4 (drop (f_pos (file_at ?w (private_file ?w 3))) (f_data (file_at ?w (private_file ?w 3)))))
            | Long64 \<Rightarrow> int (be_val (take 4 (drop (f_pos (file_at ?w (private_file ?w 3))) (f_data (file_at ?w (private_file ?w 3)))))))"
    using h ok by (rule getlong_value)
  also have "\<dots> = 4294967295"
    by (simp add: private_file_create file_at_create file_at_set_file mk_file_sel be_val_ff)
  finally show ?thesis using ok wire_int32_ff by (simp only: simp_thms)
qed

subsection \<open>Encoding an integer\<close>

text \<open>
  C3, at the input where the code departs from it. On a big-endian host with a
  64-bit \<^verbatim>\<open>long\<close>, \<^verbatim>\<open>xdrstdio_putlong\<close> of the value 1 into an empty stream
  succeeds and leaves the bytes \<open>00 00 00 00\<close> in the stream, where the wire
  form of 1 is \<open>00 00 00 01\<close>: \<^verbatim>\<open>fwrite\<close> is given the first
  \<^verbatim>\<open>sizeof(int32_t)\<close> bytes of the \<^verbatim>\<open>long\<close> \<open>mycopy\<close>, which on such a host are
  its high-order half.
\<close>

theorem putlong_be64_writes_zeros:
  "fst (xdrstdio_putlong \<lparr>big_endian = True, long_size = Long64\<rparr> 3 1
          (xdrstdio_create 3 2 XDR_ENCODE (set_file 2 (mk_file True [] 0) blank_world)))
   \<and> f_data (file_at (snd (xdrstdio_putlong \<lparr>big_endian = True, long_size = Long64\<rparr> 3 1
          (xdrstdio_create 3 2 XDR_ENCODE (set_file 2 (mk_file True [] 0) blank_world)))) 2) = [0, 0, 0, 0]
   \<and> xdr_int32 1 = [0, 0, 0, 1]"
proof -
  let ?h = "\<lparr>big_endian = True, long_size = Long64\<rparr>"
  let ?w = "xdrstdio_create 3 2 XDR_ENCODE (set_file 2 (mk_file True [] 0) blank_world)"
  have p: "private_file ?w 3 = 2" by (rule private_file_create)
  have f: "file_at ?w 2 = mk_file True [] 0" by (simp only: file_at_create file_at_set_file)
  have "put_bytes_of ?h (Put_long 1) = replicate 4 0"
    by (subst put_long_bytes) simp
  then have b: "put_bytes_of ?h (Put_long 1) = [0, 0, 0, 0]"
    by (simp only: replicate_4)
  have "xdrstdio_putlong ?h 3 1 ?w =
          (True, set_file 2 ((mk_file True [] 0)\<lparr>f_pending := Some (overwrite (f_pos (mk_file True [] 0)) [0, 0, 0, 0] (f_data (mk_file True [] 0))),
                       f_pos := f_pos (mk_file True [] 0) + 4\<rparr>) ?w)"
    using putlong_result [of "mk_file True [] 0" ?w 3 ?h 1]
    by (simp only: p f b mk_file_sel simp_thms)
  then show ?thesis
    by (simp add: file_at_set_file mk_file_sel overwrite_empty xdr_int32_1)
qed

subsection \<open>Zero-length byte blocks\<close>

text \<open>
  C4. With \<open>len = 0\<close>, \<^verbatim>\<open>xdrstdio_getbytes\<close> and \<^verbatim>\<open>xdrstdio_putbytes\<close> return
  \<^verbatim>\<open>TRUE\<close> without calling \<^verbatim>\<open>fread\<close> or \<^verbatim>\<open>fwrite\<close>: the whole memory, and
  with it the position and the content of every stream, is as before, and so
  is the caller's buffer.
\<close>

theorem zero_length_bytes_no_io:
  "xdrstdio_getbytes xdrs addr 0 w = (True, addr, w) \<and>
   xdrstdio_putbytes xdrs addr 0 w = (True, w)"
  by (simp add: xdrstdio_getbytes_def xdrstdio_putbytes_def)

subsection \<open>Short reads\<close>

text \<open>
  C5. When the stream has fewer than four bytes left after its position,
  \<^verbatim>\<open>xdrstdio_getlong\<close> returns \<^verbatim>\<open>FALSE\<close>, on every host and whatever the
  caller's \<^verbatim>\<open>long\<close> held.
\<close>

theorem getlong_short_read_fails:
  assumes "length (f_data (file_at w (private_file w xdrs))) - f_pos (file_at w (private_file w xdrs)) < 4"
  shows "fst (xdrstdio_getlong h xdrs lp w) = False"
  using assms by (rule getlong_short)

text \<open>An instance: three bytes left, at offset 4 of a stream of 7 bytes.\<close>

theorem getlong_short_read_fails_witness:
  "length (f_data (file_at (xdrstdio_create 3 2 XDR_DECODE (set_file 2 (mk_file True [1, 2, 3, 4, 5, 6, 7] 4) blank_world))
             (private_file (xdrstdio_create 3 2 XDR_DECODE (set_file 2 (mk_file True [1, 2, 3, 4, 5, 6, 7] 4) blank_world)) 3)))
     - f_pos (file_at (xdrstdio_create 3 2 XDR_DECODE (set_file 2 (mk_file True [1, 2, 3, 4, 5, 6, 7] 4) blank_world))
             (private_file (xdrstdio_create 3 2 XDR_DECODE (set_file 2 (mk_file True [1, 2, 3, 4, 5, 6, 7] 4) blank_world)) 3)) < 4
   \<and> fst (xdrstdio_getlong \<lparr>big_endian = False, long_size = Long64\<rparr> 3 0
          (xdrstdio_create 3 2 XDR_DECODE (set_file 2 (mk_file True [1, 2, 3, 4, 5, 6, 7] 4) blank_world))) = False"
proof -
  let ?w = "xdrstdio_create 3 2 XDR_DECODE (set_file 2 (mk_file True [1, 2, 3, 4, 5, 6, 7] 4) blank_world)"
  have short: "length (f_data (file_at ?w (private_file ?w 3))) - f_pos (file_at ?w (private_file ?w 3)) < 4"
    by (simp add: private_file_create file_at_create file_at_set_file mk_file_sel)
  from short getlong_short_read_fails [OF short] show ?thesis by (simp only: simp_thms)
qed

subsection \<open>Position\<close>

text \<open>
  C6, as the code has it. Let \<open>p\<close> be a position that \<^verbatim>\<open>xdrstdio_getpos\<close> has
  returned, at any earlier moment, and let \<open>p\<close> fit in a \<^verbatim>\<open>long\<close> of the host
  (every such \<open>p\<close> does when \<^verbatim>\<open>long\<close> has 64 bits). On a stream that is open
  and seekable, and whose device accepts the output the stream still holds,
  if any, \<^verbatim>\<open>xdrstdio_setpos\<close> to \<open>p\<close> succeeds, \<^verbatim>\<open>xdrstdio_getpos\<close> then
  returns \<open>p\<close>, and the stream is at offset \<open>p\<close>.
\<close>

theorem getpos_setpos_roundtrip:
  assumes p: "p = xdrstdio_getpos h xdrs w0"
    and m: "int p \<le> LONG_MAX h"
    and o: "f_open (file_at w (private_file w xdrs))"
    and s: "f_seekable (file_at w (private_file w xdrs))"
    and d: "f_dev_ok (file_at w (private_file w xdrs)) \<or>
            f_pending (file_at w (private_file w xdrs)) = None"
  shows "fst (xdrstdio_setpos h xdrs p w) \<and>
         xdrstdio_getpos h xdrs (snd (xdrstdio_setpos h xdrs p w)) = p \<and>
         f_pos (file_at (snd (xdrstdio_setpos h xdrs p w)) (private_file w xdrs)) = p"
proof -
  let ?fp = "private_file w xdrs"
  let ?f = "file_at w ?fp"
  let ?r = "xdrstdio_setpos h xdrs p w"
  have u: "p < 2 ^ 32"
    unfolding p xdrstdio_getpos_def by (rule to_u32_less)
  have t: "to_long h (int p) = int p"
  proof (cases "long_size h")
    case Long32
    with m have "p < 2 ^ 31" by (simp add: LONG_MAX_32)
    with Long32 show ?thesis by (rule to_long_id_32)
  next
    case Long64
    then show ?thesis using u by (rule to_long_id_64)
  qed
  have fl: "fst (flush_out ?f)"
    using d by (simp only: flush_out_ok)
  have ok: "fst ?r" using refl o s fl t by (rule setpos_file(1))
  have f': "file_at (snd ?r) ?fp = (snd (flush_out ?f))\<lparr>f_pos := p\<rparr>"
    using refl o s fl t by (rule setpos_file(2))
  have p': "private_file (snd ?r) xdrs = ?fp" by (simp only: private_file_ops)
  have q: "file_at (snd ?r) (private_file (snd ?r) xdrs) = (snd (flush_out ?f))\<lparr>f_pos := p\<rparr>"
    by (simp only: p' f')
  have o': "f_open (file_at (snd ?r) (private_file (snd ?r) xdrs))"
    unfolding q using o by (simp add: flush_out_sel)
  have s': "f_seekable (file_at (snd ?r) (private_file (snd ?r) xdrs))"
    unfolding q using s by (simp add: flush_out_sel)
  have e: "f_pos (file_at (snd ?r) (private_file (snd ?r) xdrs)) = p"
    unfolding q by simp
  have m': "int (f_pos (file_at (snd ?r) (private_file (snd ?r) xdrs))) \<le> LONG_MAX h"
    unfolding e by (rule m)
  have "xdrstdio_getpos h xdrs (snd ?r) = f_pos (file_at (snd ?r) (private_file (snd ?r) xdrs)) mod 2 ^ 32"
    using o' s' m' by (rule getpos_ok)
  also have "\<dots> = p" unfolding e using u by simp
  finally have g': "xdrstdio_getpos h xdrs (snd ?r) = p" .
  have "f_pos (file_at (snd ?r) ?fp) = p" unfolding f' by simp
  with ok g' show ?thesis by (simp only: simp_thms)
qed

text \<open>
  An instance: with a 64-bit \<^verbatim>\<open>long\<close>, a position 5 was reported when the
  stream was at offset \<open>2 ^ 32 + 5\<close>; later, with the stream at offset 9,
  setting the position to 5 succeeds and 5 is reported.
\<close>

theorem getpos_setpos_roundtrip_witness:
  "5 = xdrstdio_getpos \<lparr>big_endian = False, long_size = Long64\<rparr> 3 (xdrstdio_create 3 2 XDR_ENCODE (set_file 2 (mk_file True [] 4294967301) blank_world))
   \<and> int 5 \<le> LONG_MAX \<lparr>big_endian = False, long_size = Long64\<rparr>
   \<and> f_open (file_at (xdrstdio_create 3 2 XDR_ENCODE (set_file 2 (mk_file True [] 9) blank_world)) (private_file (xdrstdio_create 3 2 XDR_ENCODE (set_file 2 (mk_file True [] 9) blank_world)) 3))
   \<and> f_seekable (file_at (xdrstdio_create 3 2 XDR_ENCODE (set_file 2 (mk_file True [] 9) blank_world)) (private_file (xdrstdio_create 3 2 XDR_ENCODE (set_file 2 (mk_file True [] 9) blank_world)) 3))
   \<and> f_dev_ok (file_at (xdrstdio_create 3 2 XDR_ENCODE (set_file 2 (mk_file True [] 9) blank_world)) (private_file (xdrstdio_create 3 2 XDR_ENCODE (set_file 2 (mk_file True [] 9) blank_world)) 3))
   \<and> fst (xdrstdio_setpos \<lparr>big_endian = False, long_size = Long64\<rparr> 3 5 (xdrstdio_create 3 2 XDR_ENCODE (set_file 2 (mk_file True [] 9) blank_world)))
   \<and> xdrstdio_getpos \<lparr>big_endian = False, long_size = Long64\<rparr> 3 (snd (xdrstdio_setpos \<lparr>big_endian = False, long_size = Long64\<rparr> 3 5 (xdrstdio_create 3 2 XDR_ENCODE (set_file 2 (mk_file True [] 9) blank_world)))) = 5"
proof -
  let ?h = "\<lparr>big_endian = False, long_size = Long64\<rparr>"
  let ?v = "(xdrstdio_create 3 2 XDR_ENCODE (set_file 2 (mk_file True [] 4294967301) blank_world))"
  let ?w = "(xdrstdio_create 3 2 XDR_ENCODE (set_file 2 (mk_file True [] 9) blank_world))"
  have f0: "file_at ?v (private_file ?v 3) = mk_file True [] 4294967301"
    by (simp only: private_file_create file_at_create file_at_set_file)
  have f: "file_at ?w (private_file ?w 3) = mk_file True [] 9"
    by (simp only: private_file_create file_at_create file_at_set_file)
  have "xdrstdio_getpos ?h 3 ?v = f_pos (file_at ?v (private_file ?v 3)) mod 2 ^ 32"
    by (rule getpos_ok) (simp_all add: f0 mk_file_sel LONG_MAX_64)
  also have "\<dots> = 5"
    unfolding f0 by (simp add: mk_file_sel)
  finally have g: "5 = xdrstdio_getpos ?h 3 ?v" by (rule sym)
  have m: "int 5 \<le> LONG_MAX ?h" by (simp add: LONG_MAX_64)
  have o: "f_open (file_at ?w (private_file ?w 3))"
    and s: "f_seekable (file_at ?w (private_file ?w 3))"
    and d: "f_dev_ok (file_at ?w (private_file ?w 3))"
    unfolding f by (simp_all only: mk_file_sel)
  note t = getpos_setpos_roundtrip [OF g m o s disjI1 [OF d]]
  from g m o s d t [THEN conjunct1] t [THEN conjunct2, THEN conjunct1]
  show ?thesis by (simp only: simp_thms)
qed

text \<open>
  Three positions that \<^verbatim>\<open>xdrstdio_getpos\<close> returns and \<^verbatim>\<open>xdrstdio_setpos\<close>
  then refuses. With a 32-bit \<^verbatim>\<open>long\<close> and the stream at offset \<open>2 ^ 32 + 5\<close>,
  \<^verbatim>\<open>ftell\<close> cannot return the offset: \<^verbatim>\<open>xdrstdio_getpos\<close> returns
  \<open>(u_int) -1\<close>, 4294967295, and \<^verbatim>\<open>xdrstdio_setpos\<close> to that value fails. With a
  64-bit \<^verbatim>\<open>long\<close> and the stream at offset 8, holding four bytes of output
  that the device refuses, \<^verbatim>\<open>xdrstdio_getpos\<close> returns 8 and
  \<^verbatim>\<open>xdrstdio_setpos\<close> to 8 fails. With a 64-bit \<^verbatim>\<open>long\<close> and a stream that
  cannot seek (a pipe), \<^verbatim>\<open>xdrstdio_getpos\<close> returns 4294967295 and
  \<^verbatim>\<open>xdrstdio_setpos\<close> to that value fails.
\<close>

theorem getpos_setpos_counterexample:
  "xdrstdio_getpos \<lparr>big_endian = False, long_size = Long32\<rparr> 3
     (xdrstdio_create 3 2 XDR_ENCODE (set_file 2 (mk_file True [] 4294967301) blank_world)) = 4294967295
   \<and> fst (xdrstdio_setpos \<lparr>big_endian = False, long_size = Long32\<rparr> 3
            (xdrstdio_getpos \<lparr>big_endian = False, long_size = Long32\<rparr> 3
               (xdrstdio_create 3 2 XDR_ENCODE (set_file 2 (mk_file True [] 4294967301) blank_world)))
            (xdrstdio_create 3 2 XDR_ENCODE (set_file 2 (mk_file True [] 4294967301) blank_world))) = False
   \<and> xdrstdio_getpos \<lparr>big_endian = False, long_size = Long64\<rparr> 3
        (xdrstdio_create 3 2 XDR_ENCODE (set_file 2 ((mk_file True [1, 2, 3, 4] 8)\<lparr>f_pending := Some [1, 2, 3, 4, 5, 6, 7, 8], f_dev_ok := False\<rparr>) blank_world)) = 8
   \<and> fst (xdrstdio_setpos \<lparr>big_endian = False, long_size = Long64\<rparr> 3
            (xdrstdio_getpos \<lparr>big_endian = False, long_size = Long64\<rparr> 3
               (xdrstdio_create 3 2 XDR_ENCODE (set_file 2 ((mk_file True [1, 2, 3, 4] 8)\<lparr>f_pending := Some [1, 2, 3, 4, 5, 6, 7, 8], f_dev_ok := False\<rparr>) blank_world)))
            (xdrstdio_create 3 2 XDR_ENCODE (set_file 2 ((mk_file True [1, 2, 3, 4] 8)\<lparr>f_pending := Some [1, 2, 3, 4, 5, 6, 7, 8], f_dev_ok := False\<rparr>) blank_world))) = False
   \<and> xdrstdio_getpos \<lparr>big_endian = False, long_size = Long64\<rparr> 3
        (xdrstdio_create 3 2 XDR_DECODE (set_file 2 (mk_file False [] 0) blank_world)) = 4294967295
   \<and> fst (xdrstdio_setpos \<lparr>big_endian = False, long_size = Long64\<rparr> 3
            (xdrstdio_getpos \<lparr>big_endian = False, long_size = Long64\<rparr> 3
               (xdrstdio_create 3 2 XDR_DECODE (set_file 2 (mk_file False [] 0) blank_world)))
            (xdrstdio_create 3 2 XDR_DECODE (set_file 2 (mk_file False [] 0) blank_world))) = False"
proof -
  let ?h = "\<lparr>big_endian = False, long_size = Long32\<rparr>"
  let ?w = "(xdrstdio_create 3 2 XDR_ENCODE (set_file 2 (mk_file True [] 4294967301) blank_world))"
  have g: "xdrstdio_getpos ?h 3 ?w = 4294967295"
    by (rule getpos_sentinel)
       (simp add: private_file_create file_at_create file_at_set_file mk_file_sel LONG_MAX_32)
  have "to_long ?h (int 4294967295) < 0"
    by (simp add: to_long_def long_bits_32)
  then have a: "fst (xdrstdio_setpos ?h 3 4294967295 ?w) = False"
    by (rule setpos_fails)
  let ?k = "\<lparr>big_endian = False, long_size = Long64\<rparr>"
  let ?v = "(xdrstdio_create 3 2 XDR_ENCODE (set_file 2 ((mk_file True [1, 2, 3, 4] 8)\<lparr>f_pending := Some [1, 2, 3, 4, 5, 6, 7, 8], f_dev_ok := False\<rparr>) blank_world))"
  have f: "file_at ?v (private_file ?v 3) =
      (mk_file True [1, 2, 3, 4] 8)\<lparr>f_pending := Some [1, 2, 3, 4, 5, 6, 7, 8], f_dev_ok := False\<rparr>"
    by (simp only: private_file_create file_at_create file_at_set_file)
  have "xdrstdio_getpos ?k 3 ?v = f_pos (file_at ?v (private_file ?v 3)) mod 2 ^ 32"
    by (rule getpos_ok) (simp_all add: f mk_file_sel LONG_MAX_64)
  also have "\<dots> = 8"
    unfolding f by (simp add: mk_file_sel)
  finally have g8: "xdrstdio_getpos ?k 3 ?v = 8" .
  have "\<not> fst (flush_out (file_at ?v (private_file ?v 3)))"
    unfolding f by (simp add: flush_out_ok mk_file_sel)
  then have b: "fst (xdrstdio_setpos ?k 3 8 ?v) = False"
    by (rule setpos_refused)
  let ?u = "(xdrstdio_create 3 2 XDR_DECODE (set_file 2 (mk_file False [] 0) blank_world))"
  have n: "\<not> f_seekable (file_at ?u (private_file ?u 3))"
    by (simp add: private_file_create file_at_create file_at_set_file mk_file_sel)
  have gu: "xdrstdio_getpos ?k 3 ?u = 4294967295"
    using n by (rule getpos_unseekable)
  have c: "fst (xdrstdio_setpos ?k 3 4294967295 ?u) = False"
    using n by (rule setpos_unseekable)
  from g a g8 b gu c show ?thesis by (simp only: simp_thms)
qed

subsection \<open>Destroying a handle\<close>




subsection \<open>Creating a handle, and what never changes\<close>

text \<open>
  C8. \<^verbatim>\<open>xdrstdio_create\<close> stores the mode, the address of the operation table
  of this backend and the caller's \<^verbatim>\<open>FILE *\<close>, and clears \<open>x_handy\<close>, \<open>x_base\<close>,
  both \<open>x_lib\<close> slots and \<open>x_public\<close>. No other operation writes to a handle:
  after each of them every \<^verbatim>\<open>XDR\<close> object, and so its mode and its table, is as
  before. (\<^verbatim>\<open>xdrstdio_getpos\<close> only returns a number.)
\<close>

theorem create_sets_mode_and_ops_once:
  "x_op (xdr_at (xdrstdio_create xdrs file op w) xdrs) = op \<and>
   x_ops (xdr_at (xdrstdio_create xdrs file op w) xdrs) = Some xdrstdio_ops \<and>
   x_private (xdr_at (xdrstdio_create xdrs file op w) xdrs) = file \<and>
   x_handy (xdr_at (xdrstdio_create xdrs file op w) xdrs) = 0 \<and>
   x_base (xdr_at (xdrstdio_create xdrs file op w) xdrs) = NULL \<and>
   x_lib (xdr_at (xdrstdio_create xdrs file op w) xdrs) = (NULL, NULL) \<and>
   x_public (xdr_at (xdrstdio_create xdrs file op w) xdrs) = NULL \<and>
   xdr_at (snd (snd (xdrstdio_getlong h xdrs lp w))) = xdr_at w \<and>
   xdr_at (snd (xdrstdio_putlong h xdrs lp w)) = xdr_at w \<and>
   xdr_at (snd (snd (xdrstdio_getbytes xdrs addr len w))) = xdr_at w \<and>
   xdr_at (snd (xdrstdio_putbytes xdrs addr len w)) = xdr_at w \<and>
   xdr_at (snd (xdrstdio_setpos h xdrs pos w)) = xdr_at w \<and>
   xdr_at (snd (xdrstdio_inline xdrs len w)) = xdr_at w \<and>
   xdr_at (xdrstdio_destroy xdrs w) = xdr_at w"
  by (simp only: create_fields xdr_at_ops simp_thms)

subsection \<open>Reading writes nothing\<close>

text \<open>
  C9, as the code has it. A handle created for decoding on a stream that holds
  no buffered output, and driven through any list of \<^verbatim>\<open>get_long\<close>,
  \<^verbatim>\<open>get_bytes\<close> and \<^verbatim>\<open>get_pos\<close> calls, writes nothing: the content of every
  file, and the content seen through every stream, is as it was before the
  handle was created.
\<close>

theorem decode_gets_never_write:
  assumes "f_pending (file_at w fp) = None"
  shows "f_file (file_at (drive_get h xdrs cs (xdrstdio_create xdrs fp XDR_DECODE w)) a) = f_file (file_at w a) \<and>
         f_data (file_at (drive_get h xdrs cs (xdrstdio_create xdrs fp XDR_DECODE w)) a) = f_data (file_at w a)"
proof -
  let ?w = "xdrstdio_create xdrs fp XDR_DECODE w"
  have "f_pending (file_at ?w (private_file ?w xdrs)) = None"
    unfolding private_file_create file_at_create by (rule assms)
  then have "f_file (file_at (drive_get h xdrs cs ?w) a) = f_file (file_at ?w a) \<and>
             f_pending (file_at (drive_get h xdrs cs ?w) a) = f_pending (file_at ?w a)"
    by (rule drive_get_contents)
  then have "f_file (file_at (drive_get h xdrs cs ?w) a) = f_file (file_at w a)"
    and "f_pending (file_at (drive_get h xdrs cs ?w) a) = f_pending (file_at w a)"
    unfolding file_at_create by simp_all
  then show ?thesis by (simp only: f_data_def simp_thms)
qed

text \<open>
  An instance: an integer, two bytes and the position are read from an
  eight-byte file.
\<close>

theorem decode_gets_never_write_witness:
  "f_pending (file_at (set_file 2 (mk_file True [1, 2, 3, 4, 5, 6, 7, 8] 0) blank_world) 2) = None
   \<and> f_file (file_at (drive_get \<lparr>big_endian = False, long_size = Long64\<rparr> 3 [Get_long 0, Get_bytes [0, 0] 2, Get_pos]
        (xdrstdio_create 3 2 XDR_DECODE (set_file 2 (mk_file True [1, 2, 3, 4, 5, 6, 7, 8] 0) blank_world))) 2) =
      [1, 2, 3, 4, 5, 6, 7, 8]"
proof -
  let ?w = "(set_file 2 (mk_file True [1, 2, 3, 4, 5, 6, 7, 8] 0) blank_world)"
  have f: "file_at ?w 2 = mk_file True [1, 2, 3, 4, 5, 6, 7, 8] 0"
    by (simp only: file_at_set_file)
  have c: "f_pending (file_at ?w 2) = None"
    unfolding f by (simp only: mk_file_sel)
  note t = decode_gets_never_write [OF c, of "\<lparr>big_endian = False, long_size = Long64\<rparr>" 3 "[Get_long 0, Get_bytes [0, 0] 2, Get_pos]" 2]
  have "f_file (file_at (drive_get \<lparr>big_endian = False, long_size = Long64\<rparr> 3 [Get_long 0, Get_bytes [0, 0] 2, Get_pos]
        (xdrstdio_create 3 2 XDR_DECODE ?w)) 2) = [1, 2, 3, 4, 5, 6, 7, 8]"
    using t [THEN conjunct1] unfolding f by (simp only: mk_file_sel)
  with c show ?thesis by (simp only: simp_thms)
qed

text \<open>
  A stream that holds unwritten output when the handle is created: the file is
  \<^verbatim>\<open>01 02 03 04 05 06 07 08\<close>, the bytes \<^verbatim>\<open>AA BB CC DD\<close> have been written
  through the stream at offset 0 and not flushed. One \<^verbatim>\<open>get_long\<close> on a
  handle created for decoding writes them: \<^verbatim>\<open>fread\<close> flushes the stream before
  it reads.
\<close>

theorem decode_get_flushes_counterexample:
  "f_file (file_at (set_file 2 ((mk_file True [1, 2, 3, 4, 5, 6, 7, 8] 4)\<lparr>f_pending := Some [170, 187, 204, 221, 5, 6, 7, 8]\<rparr>) blank_world) 2) = [1, 2, 3, 4, 5, 6, 7, 8]
   \<and> f_file (file_at (drive_get \<lparr>big_endian = False, long_size = Long64\<rparr> 3 [Get_long 0]
        (xdrstdio_create 3 2 XDR_DECODE (set_file 2 ((mk_file True [1, 2, 3, 4, 5, 6, 7, 8] 4)\<lparr>f_pending := Some [170, 187, 204, 221, 5, 6, 7, 8]\<rparr>) blank_world))) 2) =
      [170, 187, 204, 221, 5, 6, 7, 8]"
proof -
  let ?f = "(mk_file True [1, 2, 3, 4, 5, 6, 7, 8] 4)\<lparr>f_pending := Some [170, 187, 204, 221, 5, 6, 7, 8]\<rparr>"
  let ?v = "(set_file 2 ((mk_file True [1, 2, 3, 4, 5, 6, 7, 8] 4)\<lparr>f_pending := Some [170, 187, 204, 221, 5, 6, 7, 8]\<rparr>) blank_world)"
  let ?w = "xdrstdio_create 3 2 XDR_DECODE ?v"
  have f0: "file_at ?v 2 = ?f" by (simp only: file_at_set_file)
  have a: "f_file (file_at ?v 2) = [1, 2, 3, 4, 5, 6, 7, 8]"
    unfolding f0 by (simp add: mk_file_sel)
  have p: "private_file ?w 3 = 2" by (rule private_file_create)
  have f: "file_at ?w 2 = ?f" by (simp only: file_at_create file_at_set_file)
  have "f_file (snd (snd (fread (long_store \<lparr>big_endian = False, long_size = Long64\<rparr> 0) sizeof_int32 1 ?f))) = f_data ?f"
    by (rule fread_flushes) (simp_all add: mk_file_sel sizeof_int32_def)
  then have "f_file (file_at (drive_get \<lparr>big_endian = False, long_size = Long64\<rparr> 3 [Get_long 0] ?w) 2) = [170, 187, 204, 221, 5, 6, 7, 8]"
    unfolding drive_get.simps get_step.simps getlong_world p f file_at_set_file
    by simp
  with a show ?thesis by (simp only: simp_thms)
qed

subsection \<open>Creation does no input or output\<close>

text \<open>
  C10. \<^verbatim>\<open>xdrstdio_create\<close> has no failure result and touches no stream: every
  \<^verbatim>\<open>FILE\<close> object is as before, and the only memory that changes is the
  caller's handle (putting the old handle back gives the old memory).
\<close>

theorem create_no_io:
  "file_at (xdrstdio_create xdrs file op w) = file_at w \<and>
   (xdr_at (xdrstdio_create xdrs file op w))(xdrs := xdr_at w xdrs) = xdr_at w"
  by (simp add: xdrstdio_create_def)

end
